theory Spec2Isabelle
  imports Complex_Main
begin

section \<open>The browser environment seen by script.js\<close>

text \<open>
  The scripts of the portfolio site run against the browser: the DOM, the two storage
  areas, the console, timers and event-listener tables.  The part of that environment
  the code reads or writes is one record, \<open>world\<close>, threaded through every method.
  A method of a class takes the pair of the instance's fields and the world and returns
  the pair after the call, together with the exception it raised, if any: what was
  mutated before a \<open>throw\<close> stays mutated, as in JavaScript.
\<close>

datatype node = DocumentElement | Body | Node nat

datatype exn = Error string | TypeError string | RangeError string

datatype log_entry =
    Log string
  | Warn string
  | ErrorLog string exn
  | Debug string
  | LogData string "(string \<times> string) list"

datatype event_target = Document | Window | Element node | MediaQueryList string

datatype handler =
    App_handleVisibilityChange
  | App_handleResize_debounced nat
  | App_handleError
  | Nav_toggleMobileMenu
  | Nav_handleNavLinkClick
  | Nav_handleOutsideClick
  | Nav_handleScroll_throttled nat
  | Scroll_handleScroll_throttled nat
  | Scroll_scrollToTop
  | Theme_systemChange

datatype timer_task = TypeText node string nat

record request =
  url :: string
  http_method :: string
  headers :: "(string \<times> string) list"
  body :: "(string \<times> string) list"
  mode :: string

record world =
  elementById :: "string \<Rightarrow> node option"
  querySelectorAll :: "string \<Rightarrow> node list"
  classList :: "node \<Rightarrow> string list"
  attributes :: "node \<Rightarrow> string \<Rightarrow> string option"
  style :: "node \<Rightarrow> string \<Rightarrow> string option"
  textContent :: "node \<Rightarrow> string"
  innerHTML :: "node \<Rightarrow> string"
  offsetHeight :: "node \<Rightarrow> real"
  rectTop :: "node \<Rightarrow> real"
  scrollY :: real
  innerWidth :: real
  numberAdd :: "real \<Rightarrow> real \<Rightarrow> real"
  bodyChildren :: "node list"
  nextNode :: nat
  listeners :: "(event_target \<times> string \<times> handler) list"
  timers :: "(nat \<times> timer_task) list"
  console :: "log_entry list"
  localStorage :: "string \<Rightarrow> string option"
  sessionStorage :: "string \<Rightarrow> string option"
  prefersColorSchemeDark :: bool
  searchParams :: "(string \<times> string) list"
  referrer :: string
  userAgent :: string
  pathname :: string
  hostname :: string
  dateNow :: nat
  isoTimestamp :: string
  randomBase36 :: string
  requests :: "request list"

text \<open>
  The page inputs that script.js and tracking.js only read are fields of the same record:
  \<open>searchParams\<close> is the list of pairs of \<open>new URLSearchParams(window.location.search)\<close>,
  \<open>dateNow\<close> is \<open>Date.now()\<close>, \<open>isoTimestamp\<close> is \<open>new Date().toISOString()\<close>,
  \<open>randomBase36\<close> is \<open>Math.random().toString(36)\<close>, and \<open>rectTop n\<close> is
  \<open>n.getBoundingClientRect().top\<close>.

  A JavaScript number is a double.  A pixel quantity is the real number that a finite double
  denotes, so comparing two of them is exact.  The sum of two doubles is rounded, and is not
  the sum of the reals: \<open>numberAdd\<close> is the \<open>+\<close> of JavaScript numbers, supplied by
  the environment like the DOM, and every \<open>+\<close> on numbers in the source is a call of it,
  in the order the source associates it.
\<close>

text \<open>JavaScript truthiness of a value that is a string or \<open>null\<close>.\<close>

fun truthy :: "string option \<Rightarrow> bool" where
  "truthy None = False"
| "truthy (Some s) = (s \<noteq> [])"

text \<open>\<open>document.querySelector\<close>: the first match in document order, or \<open>null\<close>.\<close>

definition querySelector :: "world \<Rightarrow> string \<Rightarrow> node option" where
  "querySelector w sel = (case querySelectorAll w sel of [] \<Rightarrow> None | n # _ \<Rightarrow> Some n)"

definition setAttribute :: "node \<Rightarrow> string \<Rightarrow> string \<Rightarrow> world \<Rightarrow> world" where
  "setAttribute n k v w = w\<lparr>attributes := (attributes w)(n := (attributes w n)(k \<mapsto> v))\<rparr>"

definition setStyle :: "node \<Rightarrow> string \<Rightarrow> string \<Rightarrow> world \<Rightarrow> world" where
  "setStyle n k v w = w\<lparr>style := (style w)(n := (style w n)(k \<mapsto> v))\<rparr>"

text \<open>\<open>classList.add\<close>: a token list holds each token once.\<close>

definition add_token :: "string \<Rightarrow> string list \<Rightarrow> string list" where
  "add_token t ts = (if t \<in> set ts then ts else ts @ [t])"

definition remove_token :: "string \<Rightarrow> string list \<Rightarrow> string list" where
  "remove_token t ts = filter (\<lambda>x. x \<noteq> t) ts"

definition classList_add :: "node \<Rightarrow> string \<Rightarrow> world \<Rightarrow> world" where
  "classList_add n t w = w\<lparr>classList := (classList w)(n := add_token t (classList w n))\<rparr>"

text \<open>\<open>classList.toggle(token, force)\<close>: add when \<open>force\<close>, remove otherwise.\<close>

definition classList_toggle :: "node \<Rightarrow> string \<Rightarrow> bool \<Rightarrow> world \<Rightarrow> world" where
  "classList_toggle n t force w =
     w\<lparr>classList := (classList w)
        (n := (if force then add_token t (classList w n) else remove_token t (classList w n)))\<rparr>"

definition addEventListener :: "event_target \<Rightarrow> string \<Rightarrow> handler \<Rightarrow> world \<Rightarrow> world" where
  "addEventListener tg ev h w = w\<lparr>listeners := listeners w @ [(tg, ev, h)]\<rparr>"

definition console_put :: "log_entry \<Rightarrow> world \<Rightarrow> world" where
  "console_put e w = w\<lparr>console := console w @ [e]\<rparr>"

definition localStorage_setItem :: "string \<Rightarrow> string \<Rightarrow> world \<Rightarrow> world" where
  "localStorage_setItem k v w = w\<lparr>localStorage := (localStorage w)(k \<mapsto> v)\<rparr>"

definition setTimeout :: "timer_task \<Rightarrow> nat \<Rightarrow> world \<Rightarrow> world" where
  "setTimeout task ms w = w\<lparr>timers := timers w @ [(ms, task)]\<rparr>"

section \<open>ThemeManager\<close>

record ThemeManager =
  currentTheme :: string
  prefersDarkMode :: bool

definition ThemeManager_new :: ThemeManager where
  "ThemeManager_new = \<lparr>currentTheme = ''light'', prefersDarkMode = False\<rparr>"

definition hasUserPreference :: "world \<Rightarrow> bool" where
  "hasUserPreference w = (localStorage w ''portfolio-theme'' \<noteq> None)"

definition updateMetaThemeColor :: "ThemeManager \<times> world \<Rightarrow> ThemeManager \<times> world" where
  \<open>updateMetaThemeColor s =
     (case s of (tm, w) \<Rightarrow>
        (case querySelector w ''meta[name="theme-color"]'' of
           None \<Rightarrow> (tm, w)
         | Some m \<Rightarrow>
             (tm, setAttribute m ''content''
                    (if currentTheme tm = ''dark'' then ''#1e293b'' else ''#ffffff'') w)))\<close>

definition applyTheme :: "ThemeManager \<times> world \<Rightarrow> ThemeManager \<times> world" where
  "applyTheme s =
     (case s of (tm, w) \<Rightarrow>
        updateMetaThemeColor (tm, setAttribute DocumentElement ''data-theme'' (currentTheme tm) w))"

definition saveTheme :: "ThemeManager \<times> world \<Rightarrow> ThemeManager \<times> world" where
  "saveTheme s =
     (case s of (tm, w) \<Rightarrow> (tm, localStorage_setItem ''portfolio-theme'' (currentTheme tm) w))"

definition toggleTheme :: "ThemeManager \<times> world \<Rightarrow> ThemeManager \<times> world" where
  "toggleTheme s =
     (case s of (tm, w) \<Rightarrow>
        saveTheme (applyTheme
          (tm\<lparr>currentTheme := (if currentTheme tm = ''light'' then ''dark'' else ''light'')\<rparr>, w)))"

definition detectSystemPreference :: "ThemeManager \<times> world \<Rightarrow> ThemeManager \<times> world" where
  "detectSystemPreference s =
     (case s of (tm, w) \<Rightarrow>
        (tm\<lparr>prefersDarkMode := prefersColorSchemeDark w\<rparr>,
         addEventListener (MediaQueryList ''(prefers-color-scheme: dark)'') ''change''
           Theme_systemChange w))"

text \<open>The listener bound by \<open>detectSystemPreference\<close>; \<open>matches\<close> is \<open>e.matches\<close>.\<close>

definition systemChange :: "bool \<Rightarrow> ThemeManager \<times> world \<Rightarrow> ThemeManager \<times> world" where
  "systemChange matches s =
     (case s of (tm, w) \<Rightarrow>
        if \<not> hasUserPreference w
        then applyTheme (tm\<lparr>currentTheme := (if matches then ''dark'' else ''light'')\<rparr>, w)
        else (tm, w))"

definition loadSavedTheme :: "ThemeManager \<times> world \<Rightarrow> ThemeManager \<times> world" where
  "loadSavedTheme s =
     (case s of (tm, w) \<Rightarrow>
        (case localStorage w ''portfolio-theme'' of
           None \<Rightarrow>
             (tm\<lparr>currentTheme := (if prefersDarkMode tm then ''dark'' else ''light'')\<rparr>, w)
         | Some savedTheme \<Rightarrow>
             if savedTheme \<noteq> [] \<and> savedTheme \<in> set [''light'', ''dark'']
             then (tm\<lparr>currentTheme := savedTheme\<rparr>, w)
             else (tm\<lparr>currentTheme := (if prefersDarkMode tm then ''dark'' else ''light'')\<rparr>, w)))"

definition ThemeManager_init :: "ThemeManager \<times> world \<Rightarrow> ThemeManager \<times> world" where
  "ThemeManager_init s = applyTheme (loadSavedTheme (detectSystemPreference s))"

section \<open>Methods that may throw\<close>

text \<open>
  A method that can raise returns the exception, if any, beside the state it left.
  \<open>andThen\<close> is statement sequencing: the second statement runs only when the first
  did not throw.
\<close>

definition andThen ::
  "('s \<Rightarrow> exn option \<times> 's) \<Rightarrow> ('s \<Rightarrow> exn option \<times> 's) \<Rightarrow> 's \<Rightarrow> exn option \<times> 's" where
  "andThen f g s = (case f s of (None, s') \<Rightarrow> g s' | (Some e, s') \<Rightarrow> (Some e, s'))"

section \<open>NavigationManager\<close>

record NavigationManager =
  navbar :: "node option"
  navToggle :: "node option"
  navMenu :: "node option"
  navLinks :: "node list"
  isMenuOpen :: bool
  nav_scrollThreshold :: real

definition NavigationManager_new :: NavigationManager where
  "NavigationManager_new =
     \<lparr>navbar = None, navToggle = None, navMenu = None, navLinks = [],
      isMenuOpen = False, nav_scrollThreshold = 50\<rparr>"

definition cacheElements ::
  "NavigationManager \<times> world \<Rightarrow> exn option \<times> (NavigationManager \<times> world)" where
  "cacheElements s =
     (case s of (nm, w) \<Rightarrow>
        (let nm' = nm\<lparr>navbar := elementById w ''navbar'',
                       navToggle := elementById w ''mobile-menu'',
                       navMenu := elementById w ''nav-menu'',
                       navLinks := querySelectorAll w ''.nav-link''\<rparr>
         in if navbar nm' = None \<or> navToggle nm' = None \<or> navMenu nm' = None
            then (Some (Error ''Required navigation elements not found''), (nm', w))
            else (None, (nm', w))))"

text \<open>
  Reading a property of \<open>null\<close> throws a \<open>TypeError\<close>; the methods below keep that
  branch wherever the source dereferences a field that starts as \<open>null\<close>.
\<close>

definition Nav_bindEvents ::
  "NavigationManager \<times> world \<Rightarrow> exn option \<times> (NavigationManager \<times> world)" where
  "Nav_bindEvents s =
     (case s of (nm, w) \<Rightarrow>
        (case navToggle nm of
           None \<Rightarrow> (Some (TypeError ''navToggle is null''), (nm, w))
         | Some t \<Rightarrow>
             (let w1 = addEventListener (Element t) ''click'' Nav_toggleMobileMenu w;
                  w2 = foldl (\<lambda>v l. addEventListener (Element l) ''click'' Nav_handleNavLinkClick v)
                         w1 (navLinks nm);
                  w3 = addEventListener Document ''click'' Nav_handleOutsideClick w2;
                  w4 = addEventListener Window ''scroll'' (Nav_handleScroll_throttled 16) w3
              in (None, (nm, w4)))))"

text \<open>
  The first loop of \<open>setActiveLink\<close>: \<open>currentSection\<close> starts as the empty string and
  is overwritten by the id of every section whose top is at or above the scroll position.
  \<open>getAttribute\<close> yields a string or \<open>null\<close>, hence the option.
\<close>

fun findCurrentSection :: "world \<Rightarrow> real \<Rightarrow> string option \<Rightarrow> node list \<Rightarrow> string option" where
  "findCurrentSection w scrollPosition currentSection [] = currentSection"
| "findCurrentSection w scrollPosition currentSection (section # sections) =
     (let sectionTop = numberAdd w (rectTop w section) (scrollY w) in
      findCurrentSection w scrollPosition
        (if scrollPosition \<ge> sectionTop then attributes w section ''id'' else currentSection)
        sections)"

text \<open>
  The second loop: \<open>link.getAttribute('href').substring(1)\<close> throws when the link has no
  \<open>href\<close>, which leaves the links after it untouched.
\<close>

fun updateLinks :: "string option \<Rightarrow> node list \<Rightarrow> world \<Rightarrow> exn option \<times> world" where
  "updateLinks currentSection [] w = (None, w)"
| "updateLinks currentSection (link # links) w =
     (case attributes w link ''href'' of
        None \<Rightarrow> (Some (TypeError ''href is null''), w)
      | Some href \<Rightarrow>
          (let targetId = drop 1 href in
           updateLinks currentSection links
             (classList_toggle link ''active'' (Some targetId = currentSection) w)))"

definition setActiveLink ::
  "NavigationManager \<times> world \<Rightarrow> exn option \<times> (NavigationManager \<times> world)" where
  "setActiveLink s =
     (case s of (nm, w) \<Rightarrow>
        (case navbar nm of
           None \<Rightarrow> (Some (TypeError ''navbar is null''), (nm, w))
         | Some nb \<Rightarrow>
             (let scrollPosition = numberAdd w (numberAdd w (scrollY w) (offsetHeight w nb)) 100;
                  sections = querySelectorAll w ''section[id]'';
                  currentSection = findCurrentSection w scrollPosition (Some '''') sections
              in (case updateLinks currentSection (navLinks nm) w of
                    (r, w') \<Rightarrow> (r, (nm, w'))))))"

definition NavigationManager_init ::
  "NavigationManager \<times> world \<Rightarrow> exn option \<times> (NavigationManager \<times> world)" where
  "NavigationManager_init = andThen cacheElements (andThen Nav_bindEvents setActiveLink)"

definition Nav_handleScroll ::
  "NavigationManager \<times> world \<Rightarrow> exn option \<times> (NavigationManager \<times> world)" where
  "Nav_handleScroll s =
     (case s of (nm, w) \<Rightarrow>
        (case navbar nm of
           None \<Rightarrow> (Some (TypeError ''navbar is null''), (nm, w))
         | Some nb \<Rightarrow>
             setActiveLink
               (nm, classList_toggle nb ''scrolled'' (scrollY w > nav_scrollThreshold nm) w)))"

text \<open>\<open>toggleMobileMenu\<close> and the resize hook that closes the menu on a desktop width.\<close>

definition toggleMobileMenu ::
  "NavigationManager \<times> world \<Rightarrow> exn option \<times> (NavigationManager \<times> world)" where
  "toggleMobileMenu s =
     (case s of (nm, w) \<Rightarrow>
        (let nm' = nm\<lparr>isMenuOpen := \<not> isMenuOpen nm\<rparr> in
         case navMenu nm' of
           None \<Rightarrow> (Some (TypeError ''navMenu is null''), (nm', w))
         | Some m \<Rightarrow>
             (let w1 = classList_toggle m ''active'' (isMenuOpen nm') w in
              case navToggle nm' of
                None \<Rightarrow> (Some (TypeError ''navToggle is null''), (nm', w1))
              | Some t \<Rightarrow>
                  (let w2 = classList_toggle t ''active'' (isMenuOpen nm') w1;
                       w3 = setStyle Body ''overflow'' (if isMenuOpen nm' then ''hidden'' else '''') w2;
                       w4 = setAttribute t ''aria-expanded''
                              (if isMenuOpen nm' then ''true'' else ''false'') w3
                   in (None, (nm', w4))))))"

definition Nav_handleResize ::
  "NavigationManager \<times> world \<Rightarrow> exn option \<times> (NavigationManager \<times> world)" where
  "Nav_handleResize s =
     (case s of (nm, w) \<Rightarrow>
        if innerWidth w > 768 \<and> isMenuOpen nm then toggleMobileMenu (nm, w) else (None, (nm, w)))"

text \<open>
  In the words of the specification: the last section, in document order, whose top is at
  or above the position \<open>pos\<close>, the top being the sum the code forms of
  \<open>getBoundingClientRect().top\<close> and \<open>scrollY\<close>; and whether a link carries the class
  \<open>active\<close>.
\<close>

definition lastSectionAtOrAbove :: "world \<Rightarrow> real \<Rightarrow> node option" where
  "lastSectionAtOrAbove w pos =
     (case rev (filter (\<lambda>s. numberAdd w (rectTop w s) (scrollY w) \<le> pos)
                  (querySelectorAll w ''section[id]'')) of
        [] \<Rightarrow> None
      | s # _ \<Rightarrow> Some s)"

text \<open>The local \<open>scrollPosition\<close> of \<open>setActiveLink\<close>, for a navbar \<open>nb\<close>.\<close>

definition scrollPositionOf :: "world \<Rightarrow> node \<Rightarrow> real" where
  "scrollPositionOf w nb = numberAdd w (numberAdd w (scrollY w) (offsetHeight w nb)) 100"

definition isActive :: "world \<Rightarrow> node \<Rightarrow> bool" where
  "isActive w link = (''active'' \<in> set (classList w link))"

section \<open>ScrollManager\<close>

record ScrollManager =
  scrollToTopButton :: "node option"
  scroll_scrollThreshold :: real

definition ScrollManager_new :: ScrollManager where
  "ScrollManager_new = \<lparr>scrollToTopButton = None, scroll_scrollThreshold = 300\<rparr>"

text \<open>\<open>document.createElement\<close>: a fresh node with no class, attribute, style or content.\<close>

definition createElement :: "world \<Rightarrow> node \<times> world" where
  "createElement w =
     (let n = Node (nextNode w) in
      (n, w\<lparr>nextNode := Suc (nextNode w),
             classList := (classList w)(n := []),
             attributes := (attributes w)(n := Map.empty),
             style := (style w)(n := Map.empty),
             textContent := (textContent w)(n := []),
             innerHTML := (innerHTML w)(n := [])\<rparr>))"

definition scrollToTop_cssText :: "(string \<times> string) list" where
  "scrollToTop_cssText =
     [(''position'', ''fixed''), (''bottom'', ''30px''), (''right'', ''30px''),
      (''width'', ''50px''), (''height'', ''50px''), (''background'', ''var(--primary-color)''),
      (''color'', ''white''), (''border'', ''none''), (''border-radius'', ''50%''),
      (''cursor'', ''pointer''), (''opacity'', ''0''), (''visibility'', ''hidden''),
      (''transition'', ''all 0.3s ease''), (''z-index'', ''1000''),
      (''box-shadow'', ''var(--shadow-medium)'')]"

definition createScrollToTopButton ::
  "ScrollManager \<times> world \<Rightarrow> exn option \<times> (ScrollManager \<times> world)" where
  \<open>createScrollToTopButton s =
     (case s of (sm, w) \<Rightarrow>
        (case createElement w of (b, w1) \<Rightarrow>
           (let w2 = w1\<lparr>classList := (classList w1)(b := [''scroll-to-top''])\<rparr>;
                w3 = w2\<lparr>innerHTML := (innerHTML w2)(b := ''<i class="fas fa-arrow-up"></i>'')\<rparr>;
                w4 = setAttribute b ''aria-label'' ''Scroll to top'' w3;
                w5 = w4\<lparr>style := (style w4)(b := map_of scrollToTop_cssText)\<rparr>;
                w6 = w5\<lparr>bodyChildren := bodyChildren w5 @ [b]\<rparr>
            in (None, (sm\<lparr>scrollToTopButton := Some b\<rparr>, w6)))))\<close>

definition Scroll_bindEvents ::
  "ScrollManager \<times> world \<Rightarrow> exn option \<times> (ScrollManager \<times> world)" where
  "Scroll_bindEvents s =
     (case s of (sm, w) \<Rightarrow>
        (let w1 = addEventListener Window ''scroll'' (Scroll_handleScroll_throttled 16) w in
         case scrollToTopButton sm of
           None \<Rightarrow> (Some (TypeError ''scrollToTopButton is null''), (sm, w1))
         | Some b \<Rightarrow> (None, (sm, addEventListener (Element b) ''click'' Scroll_scrollToTop w1))))"

definition ScrollManager_init ::
  "ScrollManager \<times> world \<Rightarrow> exn option \<times> (ScrollManager \<times> world)" where
  "ScrollManager_init = andThen createScrollToTopButton Scroll_bindEvents"

definition Scroll_handleScroll ::
  "ScrollManager \<times> world \<Rightarrow> exn option \<times> (ScrollManager \<times> world)" where
  "Scroll_handleScroll s =
     (case s of (sm, w) \<Rightarrow>
        (let shouldShow = scrollY w > scroll_scrollThreshold sm in
         case scrollToTopButton sm of
           None \<Rightarrow> (Some (TypeError ''scrollToTopButton is null''), (sm, w))
         | Some b \<Rightarrow>
             (let w1 = setStyle b ''opacity'' (if shouldShow then ''1'' else ''0'') w;
                  w2 = setStyle b ''visibility'' (if shouldShow then ''visible'' else ''hidden'') w1;
                  w3 = setStyle b ''transform''
                         (if shouldShow then ''translateY(0)'' else ''translateY(10px)'') w2
              in (None, (sm, w3)))))"

section \<open>AnimationManager\<close>

text \<open>
  An \<open>IntersectionObserver\<close> is the list of the targets it watches, with the options it
  was created with.  An entry of a notification names its target and says whether the
  target intersects.  A JavaScript \<open>Set\<close> is a list without repetition, in insertion order.
\<close>

record observer =
  targets :: "node list"
  threshold :: real
  rootMargin :: string

record entry =
  target :: node
  isIntersecting :: bool

record AnimationManager =
  observedElements :: "node list"
  intersectionObserver :: "observer option"
  isAnimationPaused :: bool

definition AnimationManager_new :: AnimationManager where
  "AnimationManager_new =
     \<lparr>observedElements = [], intersectionObserver = None, isAnimationPaused = False\<rparr>"

definition Set_add :: "'a \<Rightarrow> 'a list \<Rightarrow> 'a list" where
  "Set_add x xs = (if x \<in> set xs then xs else xs @ [x])"

definition observe :: "node \<Rightarrow> observer \<Rightarrow> observer" where
  "observe n obs = obs\<lparr>targets := Set_add n (targets obs)\<rparr>"

definition unobserve :: "node \<Rightarrow> observer \<Rightarrow> observer" where
  "unobserve n obs = obs\<lparr>targets := removeAll n (targets obs)\<rparr>"

definition animateElement :: "node \<Rightarrow> world \<Rightarrow> world" where
  "animateElement element w = classList_add element ''animated'' w"

text \<open>The body of the observer's callback after the pause check: \<open>entries.forEach\<close>.\<close>

fun forEachEntry ::
  "entry list \<Rightarrow> AnimationManager \<times> world \<Rightarrow> exn option \<times> (AnimationManager \<times> world)" where
  "forEachEntry [] s = (None, s)"
| "forEachEntry (e # es) (am, w) =
     (if isIntersecting e
      then (let w1 = animateElement (target e) w in
            case intersectionObserver am of
              None \<Rightarrow> (Some (TypeError ''intersectionObserver is null''), (am, w1))
            | Some obs \<Rightarrow>
                forEachEntry es
                  (am\<lparr>intersectionObserver := Some (unobserve (target e) obs)\<rparr>, w1))
      else forEachEntry es (am, w))"

definition observerCallback ::
  "entry list \<Rightarrow> AnimationManager \<times> world \<Rightarrow> exn option \<times> (AnimationManager \<times> world)" where
  "observerCallback entries s =
     (case s of (am, w) \<Rightarrow>
        if isAnimationPaused am then (None, (am, w)) else forEachEntry entries (am, w))"

definition setupIntersectionObserver ::
  "AnimationManager \<times> world \<Rightarrow> exn option \<times> (AnimationManager \<times> world)" where
  "setupIntersectionObserver s =
     (case s of (am, w) \<Rightarrow>
        (None,
         (am\<lparr>intersectionObserver :=
               Some \<lparr>targets = [], threshold = 1 / 10, rootMargin = ''0px 0px -50px 0px''\<rparr>\<rparr>,
          w)))"

text \<open>Decimal digits of a number, for the template string \<open>`${index * 100}ms`\<close>.\<close>

fun string_of_nat :: "nat \<Rightarrow> string" where
  "string_of_nat n =
     (if n < 10 then [''0123456789'' ! n]
      else string_of_nat (n div 10) @ [''0123456789'' ! (n mod 10)])"

declare string_of_nat.simps [simp del]

text \<open>The inner \<open>elements.forEach((element, index) => ...)\<close> of \<open>observeElements\<close>.\<close>

fun observeEach ::
  "(nat \<times> node) list \<Rightarrow> AnimationManager \<times> world \<Rightarrow> exn option \<times> (AnimationManager \<times> world)" where
  "observeEach [] s = (None, s)"
| "observeEach ((index, element) # rest) (am, w) =
     (let w1 = classList_add element ''animate-on-scroll'' w;
          w2 = setStyle element ''animation-delay'' (string_of_nat (index * 100) @ ''ms'') w1
      in case intersectionObserver am of
           None \<Rightarrow> (Some (TypeError ''intersectionObserver is null''), (am, w2))
         | Some obs \<Rightarrow>
             observeEach rest
               (am\<lparr>intersectionObserver := Some (observe element obs),
                    observedElements := Set_add element (observedElements am)\<rparr>, w2))"

fun observeSelectors ::
  "string list \<Rightarrow> AnimationManager \<times> world \<Rightarrow> exn option \<times> (AnimationManager \<times> world)" where
  "observeSelectors [] s = (None, s)"
| "observeSelectors (selector # selectors) (am, w) =
     (case observeEach (enumerate 0 (querySelectorAll w selector)) (am, w) of
        (None, s') \<Rightarrow> observeSelectors selectors s'
      | (Some e, s') \<Rightarrow> (Some e, s'))"

definition selectors :: "string list" where
  "selectors =
     [''.section-header'', ''.timeline-item'', ''.skill-category'', ''.project-card'',
      ''.about-text'', ''.contact-item'', ''.education-card'']"

definition observeElements ::
  "AnimationManager \<times> world \<Rightarrow> exn option \<times> (AnimationManager \<times> world)" where
  "observeElements s = observeSelectors selectors s"

text \<open>
  \<open>addTypingEffect\<close> empties the headline and schedules \<open>typeText\<close> after 500ms; the
  pending timer carries what the closure captured: the node, the text and \<open>charIndex\<close>.
\<close>

definition addTypingEffect ::
  "AnimationManager \<times> world \<Rightarrow> exn option \<times> (AnimationManager \<times> world)" where
  "addTypingEffect s =
     (case s of (am, w) \<Rightarrow>
        (case querySelector w ''.hero-title .gradient-text'' of
           None \<Rightarrow> (None, (am, w))
         | Some heroTitle \<Rightarrow>
             (let text = textContent w heroTitle;
                  w1 = w\<lparr>textContent := (textContent w)(heroTitle := [])\<rparr>;
                  w2 = setStyle heroTitle ''border-right'' ''2px solid var(--primary-color)'' w1;
                  w3 = setTimeout (TypeText heroTitle text 0) 500 w2
              in (None, (am, w3)))))"

definition AnimationManager_init ::
  "AnimationManager \<times> world \<Rightarrow> exn option \<times> (AnimationManager \<times> world)" where
  "AnimationManager_init =
     andThen setupIntersectionObserver (andThen observeElements addTypingEffect)"

definition pause :: "AnimationManager \<Rightarrow> AnimationManager" where
  "pause am = am\<lparr>isAnimationPaused := True\<rparr>"

definition resume :: "AnimationManager \<Rightarrow> AnimationManager" where
  "resume am = am\<lparr>isAnimationPaused := False\<rparr>"

definition Animation_handleResize ::
  "AnimationManager \<times> world \<Rightarrow> exn option \<times> (AnimationManager \<times> world)" where
  "Animation_handleResize s =
     (case s of (am, w) \<Rightarrow>
        if length (observedElements am) = 0 then observeElements (am, w) else (None, (am, w)))"

text \<open>
  The browser's side of the observer: a notification carries entries only for targets the
  observer watches when it is delivered, and the callback then runs on those entries.
\<close>

definition notify ::
  "entry list \<Rightarrow> AnimationManager \<times> world \<Rightarrow> exn option \<times> (AnimationManager \<times> world)" where
  "notify entries s =
     (case s of (am, w) \<Rightarrow>
        (case intersectionObserver am of
           None \<Rightarrow> (None, (am, w))
         | Some obs \<Rightarrow>
             observerCallback (filter (\<lambda>e. target e \<in> set (targets obs)) entries) (am, w)))"

text \<open>What can happen to an initialised AnimationManager, and a run of such events.\<close>

datatype animation_event = Intersections "entry list" | Pause | Resume | Resize

fun animation_step ::
  "animation_event \<Rightarrow> AnimationManager \<times> world \<Rightarrow> AnimationManager \<times> world" where
  "animation_step (Intersections entries) s = snd (notify entries s)"
| "animation_step Pause (am, w) = (pause am, w)"
| "animation_step Resume (am, w) = (resume am, w)"
| "animation_step Resize s = snd (Animation_handleResize s)"

definition animation_run ::
  "animation_event list \<Rightarrow> AnimationManager \<times> world \<Rightarrow> AnimationManager \<times> world" where
  "animation_run events s = foldl (\<lambda>s ev. animation_step ev s) s events"

text \<open>
  Whether the observer watches a node; the invariant that ties the observer's targets to
  \<open>observedElements\<close>; and what holds of a node once it has been animated: the observer
  no longer watches it, and \<open>observedElements\<close> is not empty, so that \<open>handleResize\<close>
  does not observe again.
\<close>

definition observes :: "AnimationManager \<Rightarrow> node \<Rightarrow> bool" where
  "observes am n = (case intersectionObserver am of None \<Rightarrow> False | Some obs \<Rightarrow> n \<in> set (targets obs))"

definition observer_inv :: "AnimationManager \<Rightarrow> bool" where
  "observer_inv am =
     (case intersectionObserver am of
        None \<Rightarrow> False
      | Some obs \<Rightarrow> list_all (\<lambda>n. n \<in> set (observedElements am)) (targets obs))"

definition retired :: "node \<Rightarrow> AnimationManager \<Rightarrow> bool" where
  "retired n am =
     (case intersectionObserver am of
        None \<Rightarrow> False
      | Some obs \<Rightarrow> n \<notin> set (targets obs) \<and> observedElements am \<noteq> [])"

section \<open>PortfolioApp\<close>

text \<open>
  The registry is a JavaScript \<open>Map\<close>: keys in insertion order, and \<open>set\<close> on a key
  already there replaces its value in place.
\<close>

datatype component =
    Navigation NavigationManager
  | Scroll ScrollManager
  | Animation AnimationManager
  | Theme ThemeManager

record PortfolioApp =
  components :: "(string \<times> component) list"
  isInitialized :: bool

definition PortfolioApp_new :: PortfolioApp where
  "PortfolioApp_new = \<lparr>components = [], isInitialized = False\<rparr>"

fun Map_set :: "'k \<Rightarrow> 'v \<Rightarrow> ('k \<times> 'v) list \<Rightarrow> ('k \<times> 'v) list" where
  "Map_set k v [] = [(k, v)]"
| "Map_set k v ((k', v') # m) = (if k' = k then (k, v) # m else (k', v') # Map_set k v m)"

definition registerComponents ::
  "PortfolioApp \<times> world \<Rightarrow> exn option \<times> (PortfolioApp \<times> world)" where
  "registerComponents s =
     (case s of (app, w) \<Rightarrow>
        (let c1 = Map_set ''navigation'' (Navigation NavigationManager_new) (components app);
             c2 = Map_set ''scroll'' (Scroll ScrollManager_new) c1;
             c3 = Map_set ''animation'' (Animation AnimationManager_new) c2;
             c4 = Map_set ''theme'' (Theme ThemeManager_new) c3
         in (None, (app\<lparr>components := c4\<rparr>, w))))"

text \<open>\<open>component.init()\<close>, dispatched on the class of the component.\<close>

fun component_init :: "component \<times> world \<Rightarrow> exn option \<times> (component \<times> world)" where
  "component_init (Navigation nm, w) =
     (case NavigationManager_init (nm, w) of (r, (nm', w')) \<Rightarrow> (r, (Navigation nm', w')))"
| "component_init (Scroll sm, w) =
     (case ScrollManager_init (sm, w) of (r, (sm', w')) \<Rightarrow> (r, (Scroll sm', w')))"
| "component_init (Animation am, w) =
     (case AnimationManager_init (am, w) of (r, (am', w')) \<Rightarrow> (r, (Animation am', w')))"
| "component_init (Theme tm, w) =
     (case ThemeManager_init (tm, w) of (tm', w') \<Rightarrow> (None, (Theme tm', w')))"

text \<open>
  The loop of \<open>initializeComponents\<close>, for any kind of component: \<open>init\<close> is the
  component's own \<open>init()\<close>.  Each call sits in its own \<open>try\<close>; both branches log and
  go on to the next entry of the registry.
\<close>

fun forEachInit ::
  "('c \<times> world \<Rightarrow> exn option \<times> ('c \<times> world)) \<Rightarrow> (string \<times> 'c) list \<Rightarrow> world \<Rightarrow>
   (string \<times> 'c) list \<times> world" where
  "forEachInit init [] w = ([], w)"
| "forEachInit init ((name, component) # rest) w =
     (case init (component, w) of
        (None, (component', w')) \<Rightarrow>
          (case forEachInit init rest
                  (console_put (Log (name @ '' component initialized'')) w') of
             (rest', w'') \<Rightarrow> ((name, component') # rest', w''))
      | (Some error, (component', w')) \<Rightarrow>
          (case forEachInit init rest
                  (console_put (ErrorLog (''Failed to initialize '' @ name @ '' component:'') error) w') of
             (rest', w'') \<Rightarrow> ((name, component') # rest', w'')))"

definition initializeComponents ::
  "PortfolioApp \<times> world \<Rightarrow> exn option \<times> (PortfolioApp \<times> world)" where
  "initializeComponents s =
     (case s of (app, w) \<Rightarrow>
        (case forEachInit component_init (components app) w of
           (cs, w') \<Rightarrow> (None, (app\<lparr>components := cs\<rparr>, w'))))"

definition App_bindEvents ::
  "PortfolioApp \<times> world \<Rightarrow> exn option \<times> (PortfolioApp \<times> world)" where
  "App_bindEvents s =
     (case s of (app, w) \<Rightarrow>
        (let w1 = addEventListener Document ''visibilitychange'' App_handleVisibilityChange w;
             w2 = addEventListener Window ''resize'' (App_handleResize_debounced 250) w1;
             w3 = addEventListener Window ''error'' App_handleError w2
         in (None, (app, w3))))"

definition markInitialized ::
  "PortfolioApp \<times> world \<Rightarrow> exn option \<times> (PortfolioApp \<times> world)" where
  "markInitialized s =
     (case s of (app, w) \<Rightarrow>
        (None, (app\<lparr>isInitialized := True\<rparr>,
                console_put (Log ''Portfolio application initialized successfully'') w)))"

text \<open>
  \<open>init\<close>: the guard on \<open>isInitialized\<close>, then the \<open>try\<close> block, whose \<open>catch\<close> logs
  the exception and returns.
\<close>

definition PortfolioApp_init :: "PortfolioApp \<times> world \<Rightarrow> PortfolioApp \<times> world" where
  "PortfolioApp_init s =
     (case s of (app, w) \<Rightarrow>
        if isInitialized app
        then (app, console_put (Warn ''Application already initialized'') w)
        else (case andThen registerComponents
                     (andThen initializeComponents
                        (andThen App_bindEvents markInitialized)) (app, w) of
                (None, s') \<Rightarrow> s'
              | (Some error, (app', w')) \<Rightarrow>
                  (app', console_put (ErrorLog ''Failed to initialize application:'' error) w')))"

section \<open>The throttle wrapper\<close>

text \<open>
  \<open>Utils.throttle\<close>, \<open>NavigationManager.throttle\<close> and \<open>ScrollManager.throttle\<close> have
  the same body.  The closure of a wrapper holds \<open>inThrottle\<close> (\<open>undefined\<close>, which is
  falsy, until first set).  The record adds the clock in milliseconds, the due times of the
  pending \<open>setTimeout(() => inThrottle = false, limit)\<close> callbacks, the state the wrapped
  function works on, and \<open>invocations\<close>: the clock at each \<open>func.apply\<close>, kept only to
  count the calls.
\<close>

record 's throttle_state =
  inThrottle :: bool
  clock :: nat
  resetTimers :: "nat list"
  invocations :: "nat list"
  inner :: 's

definition throttle_new :: "nat \<Rightarrow> 's \<Rightarrow> 's throttle_state" where
  "throttle_new now s =
     \<lparr>inThrottle = False, clock = now, resetTimers = [], invocations = [], inner = s\<rparr>"

text \<open>
  What one run of the wrapped function does, seen from the wrapper: it works on its own
  state and then returns, or throws, or calls the wrapper it is wrapped in, with some
  arguments, and goes on from what that call gave: the exception, if any, and its own
  state as the inner call left it.
\<close>

datatype ('a, 's) action =
    Return 's
  | Throw exn 's
  | CallWrapper 'a 's "exn option \<Rightarrow> 's \<Rightarrow> ('a, 's) action"

primrec execAction ::
  "('a \<Rightarrow> 's throttle_state \<Rightarrow> exn option \<times> 's throttle_state) \<Rightarrow> ('a, 's) action \<Rightarrow>
   's throttle_state \<Rightarrow> exn option \<times> 's throttle_state" where
  "execAction wrapper (Return s) t = (None, t\<lparr>inner := s\<rparr>)"
| "execAction wrapper (Throw e s) t = (Some e, t\<lparr>inner := s\<rparr>)"
| "execAction wrapper (CallWrapper args s k) t =
     (case wrapper args (t\<lparr>inner := s\<rparr>) of (r, t') \<Rightarrow> execAction wrapper (k r (inner t')) t')"

text \<open>
  \<open>setTimeout\<close> converts its delay to a signed 32-bit integer and takes a negative
  result as 0.
\<close>

definition timerDelay :: "nat \<Rightarrow> nat" where
  "timerDelay limit = (if limit mod 2 ^ 32 < 2 ^ 31 then limit mod 2 ^ 32 else 0)"

text \<open>
  The wrapper returned by \<open>throttle(func, limit)\<close>, called with \<open>args\<close>.  The flag is
  read first; \<open>func.apply\<close> runs while the flag is still unset, so a call of the wrapper
  from inside \<open>func\<close> runs \<open>func\<close> again; the flag is set and the timer started only
  after \<open>func\<close> has returned, and not at all when it throws.  \<open>stack\<close> is the call depth
  left: a call with none left throws the engine's \<open>RangeError\<close>.
\<close>

primrec throttle ::
  "nat \<Rightarrow> ('a \<Rightarrow> 's \<Rightarrow> ('a, 's) action) \<Rightarrow> nat \<Rightarrow> 'a \<Rightarrow> 's throttle_state \<Rightarrow>
   exn option \<times> 's throttle_state" where
  "throttle 0 func limit args t =
     (Some (RangeError ''Maximum call stack size exceeded''), t)"
| "throttle (Suc stack) func limit args t =
     (if \<not> inThrottle t
      then (case execAction (throttle stack func limit) (func args (inner t))
                   (t\<lparr>invocations := invocations t @ [clock t]\<rparr>) of
              (Some e, t') \<Rightarrow> (Some e, t')
            | (None, t') \<Rightarrow>
                (None, t'\<lparr>inThrottle := True,
                           resetTimers := resetTimers t' @ [clock t' + timerDelay limit]\<rparr>))
      else (None, t))"

text \<open>
  The event loop around a wrapper: the wrapper is called, time passes, or the oldest
  pending timer runs, which the browser does no earlier than its due time.  An exception
  that leaves the wrapper is reported by the browser and the loop goes on.
\<close>

datatype 'a loop_event = Call 'a | Advance nat | Fire

definition fire :: "'s throttle_state \<Rightarrow> 's throttle_state" where
  "fire t =
     (case resetTimers t of
        [] \<Rightarrow> t
      | due # rest \<Rightarrow>
          if due \<le> clock t then t\<lparr>inThrottle := False, resetTimers := rest\<rparr> else t)"

fun loop_step ::
  "nat \<Rightarrow> ('a \<Rightarrow> 's \<Rightarrow> ('a, 's) action) \<Rightarrow> nat \<Rightarrow> 'a loop_event \<Rightarrow> 's throttle_state \<Rightarrow>
   's throttle_state" where
  "loop_step stack func limit (Call args) t = snd (throttle stack func limit args t)"
| "loop_step stack func limit (Advance d) t = t\<lparr>clock := clock t + d\<rparr>"
| "loop_step stack func limit Fire t = fire t"

definition loop_run ::
  "nat \<Rightarrow> ('a \<Rightarrow> 's \<Rightarrow> ('a, 's) action) \<Rightarrow> nat \<Rightarrow> 'a loop_event list \<Rightarrow> 's throttle_state \<Rightarrow>
   's throttle_state" where
  "loop_run stack func limit events t = foldl (\<lambda>t ev. loop_step stack func limit ev t) t events"

text \<open>How many of the times \<open>ts\<close> fall in the window that starts at \<open>a\<close> and lasts \<open>len\<close>.\<close>

definition in_window :: "nat \<Rightarrow> nat \<Rightarrow> nat list \<Rightarrow> nat" where
  "in_window a len ts = length (filter (\<lambda>t. a \<le> t \<and> t < a + len) ts)"

text \<open>
  Three handlers to run a wrapper on.  Each counts its runs in its state.  The first
  returns; the second throws, as \<open>handleScroll\<close> does on a page where a nav link has no
  \<open>href\<close>; the third is \<open>function () { count++; if (count === 1) w(); }\<close>, where \<open>w\<close>
  is its own wrapper.
\<close>

definition counting :: "unit \<Rightarrow> nat \<Rightarrow> (unit, nat) action" where
  "counting args count = Return (Suc count)"

definition throwing :: "unit \<Rightarrow> nat \<Rightarrow> (unit, nat) action" where
  "throwing args count = Throw (TypeError ''href is null'') (Suc count)"

definition reentrant :: "unit \<Rightarrow> nat \<Rightarrow> (unit, nat) action" where
  "reentrant args count =
     (if Suc count = 1
      then CallWrapper () (Suc count)
             (\<lambda>r count'. case r of None \<Rightarrow> Return count' | Some e \<Rightarrow> Throw e count')
      else Return (Suc count))"

text \<open>
  What holds of a wrapper whose function only returns: its invocations are at least
  \<open>limit\<close> apart and not in the future; while \<open>inThrottle\<close> is set exactly one reset
  is pending, due no earlier than \<open>limit\<close> after the last invocation; otherwise none is
  pending and the last invocation is at least \<open>limit\<close> old.
\<close>

definition throttle_inv :: "nat \<Rightarrow> 's throttle_state \<Rightarrow> bool" where
  "throttle_inv limit t =
     (sorted_wrt (\<lambda>x y. x + limit \<le> y) (invocations t) \<and>
      list_all (\<lambda>x. x \<le> clock t) (invocations t) \<and>
      (if inThrottle t
       then (case resetTimers t of
               [d] \<Rightarrow> list_all (\<lambda>x. x + limit \<le> d) (invocations t)
             | _ \<Rightarrow> False)
       else resetTimers t = [] \<and> list_all (\<lambda>x. x + limit \<le> clock t) (invocations t)))"

section \<open>tracking.js\<close>

definition getUrlParameter :: "string \<Rightarrow> world \<Rightarrow> string option" where
  "getUrlParameter name w = map_of (searchParams w) name"

text \<open>\<open>a || d\<close> where \<open>a\<close> is a string or \<open>null\<close> and \<open>d\<close> a string.\<close>

definition orElse :: "string option \<Rightarrow> string \<Rightarrow> string" where
  "orElse a d = (case a of None \<Rightarrow> d | Some s \<Rightarrow> if s \<noteq> [] then s else d)"

definition sessionStorage_setItem :: "string \<Rightarrow> string \<Rightarrow> world \<Rightarrow> world" where
  "sessionStorage_setItem k v w = w\<lparr>sessionStorage := (sessionStorage w)(k \<mapsto> v)\<rparr>"

definition getVisitorId :: "world \<Rightarrow> string \<times> world" where
  "getVisitorId w =
     (let visitorId = localStorage w ''visitor_id'';
          fresh = ''visitor_'' @ string_of_nat (dateNow w) @ ''_''
                    @ take 9 (drop 2 (randomBase36 w))
      in case visitorId of
           None \<Rightarrow> (fresh, localStorage_setItem ''visitor_id'' fresh w)
         | Some v \<Rightarrow>
             if v = [] then (fresh, localStorage_setItem ''visitor_id'' fresh w) else (v, w))"

definition resolveSource :: "world \<Rightarrow> string" where
  "resolveSource w =
     orElse (getUrlParameter ''source'' w)
       (orElse (getUrlParameter ''utm_source'' w)
          (orElse (getUrlParameter ''ref'' w) ''direct''))"

definition resolveCampaign :: "world \<Rightarrow> string" where
  "resolveCampaign w =
     orElse (getUrlParameter ''campaign'' w) (orElse (getUrlParameter ''utm_campaign'' w) '''')"

definition resolveMedium :: "world \<Rightarrow> string" where
  "resolveMedium w =
     orElse (getUrlParameter ''medium'' w) (orElse (getUrlParameter ''utm_medium'' w) '''')"

text \<open>The object literal \<open>data\<close>, as its properties in order, and the world after
  \<open>getVisitorId()\<close>.\<close>

definition buildData :: "world \<Rightarrow> (string \<times> string) list \<times> world" where
  "buildData w =
     (case getVisitorId w of (visitorId, w') \<Rightarrow>
        ([(''source'', resolveSource w),
          (''campaign'', resolveCampaign w),
          (''medium'', resolveMedium w),
          (''referrer'', referrer w),
          (''user_agent'', userAgent w),
          (''page'', pathname w),
          (''timestamp'', isoTimestamp w),
          (''visitor_id'', visitorId)], w'))"

definition trackingEndpoint :: string where
  "trackingEndpoint = ''http://YOUR_SERVER_IP:9000/api/track''"

text \<open>\<open>fetch\<close> starts the request; whether it fails is known only later.\<close>

definition fetch :: "string \<Rightarrow> (string \<times> string) list \<Rightarrow> world \<Rightarrow> world" where
  "fetch u data w =
     w\<lparr>requests := requests w @
          [\<lparr>url = u, http_method = ''POST'',
            headers = [(''Content-Type'', ''application/json'')],
            body = data, mode = ''no-cors''\<rparr>]\<rparr>"

definition trackVisitor :: "world \<Rightarrow> exn option \<times> world" where
  "trackVisitor w =
     (let source = resolveSource w in
      case buildData w of (data, w1) \<Rightarrow>
        (let w2 = (if hostname w1 \<noteq> ''localhost'' \<and> hostname w1 \<noteq> ''127.0.0.1''
                   then fetch trackingEndpoint data w1 else w1);
             w3 = console_put (LogData ''Visitor tracked:'' data) w2;
             w4 = (if source \<noteq> ''direct''
                   then sessionStorage_setItem ''visit_source'' source w3 else w3)
         in (None, w4)))"

text \<open>The \<open>.catch\<close> callback of the request, run when the request fails.\<close>

definition fetch_catch :: "world \<Rightarrow> exn option \<times> world" where
  "fetch_catch w = (None, console_put (Debug ''Tracking skipped'') w)"

text \<open>
  One page load: \<open>trackVisitor\<close>, then, if a request was started and the network fails,
  the rejection of its promise.
\<close>

definition pageLoad :: "bool \<Rightarrow> world \<Rightarrow> exn option \<times> world" where
  "pageLoad networkFails w =
     (case trackVisitor w of
        (Some e, w') \<Rightarrow> (Some e, w')
      | (None, w') \<Rightarrow>
          if networkFails \<and> length (requests w') > length (requests w)
          then fetch_catch w' else (None, w'))"

text \<open>
  Names for the statements about the beacon: a parameter has a value when it is present
  and its first value is not empty; the payload is the object \<open>data\<close>; a local host is
  one of the two names the script compares with; \<open>postOf\<close> is the request the script
  sends.
\<close>

definition hasValue :: "string \<Rightarrow> world \<Rightarrow> bool" where
  "hasValue name w = truthy (getUrlParameter name w)"

definition payload :: "world \<Rightarrow> (string \<times> string) list" where
  "payload w = fst (buildData w)"

definition isLocalHost :: "world \<Rightarrow> bool" where
  "isLocalHost w = (hostname w = ''localhost'' \<or> hostname w = ''127.0.0.1'')"

definition postOf :: "world \<Rightarrow> request" where
  "postOf w =
     \<lparr>url = ''http://YOUR_SERVER_IP:9000/api/track'', http_method = ''POST'',
      headers = [(''Content-Type'', ''application/json'')],
      body = payload w, mode = ''no-cors''\<rparr>"

text \<open>
  The source in the words of the specification, for comparison with \<open>resolveSource\<close>:
  the value of \<open>source\<close> if present, else that of \<open>utm_source\<close> if present, else that
  of \<open>ref\<close> if present, else \<open>direct\<close>.
\<close>

definition spec_resolveSource :: "world \<Rightarrow> string" where
  "spec_resolveSource w =
     (case getUrlParameter ''source'' w of
        Some v \<Rightarrow> v
      | None \<Rightarrow>
          (case getUrlParameter ''utm_source'' w of
             Some v \<Rightarrow> v
           | None \<Rightarrow>
               (case getUrlParameter ''ref'' w of
                  Some v \<Rightarrow> v
                | None \<Rightarrow> ''direct'')))"

section \<open>Example pages\<close>

text \<open>
  An empty page, and the pages the theorems below are instantiated on.  Every pixel
  quantity on these pages is an integer below \<open>2\<^sup>5\<^sup>3\<close> in size, and so is every sum
  the code forms of them; on such numbers the sum of two doubles is the exact sum, which is
  what \<open>numberAdd\<close> is here.
\<close>

definition blank_world :: world where
  "blank_world =
     \<lparr>elementById = (\<lambda>_. None), querySelectorAll = (\<lambda>_. []), classList = (\<lambda>_. []),
      attributes = (\<lambda>_. Map.empty), style = (\<lambda>_. Map.empty), textContent = (\<lambda>_. []),
      innerHTML = (\<lambda>_. []), offsetHeight = (\<lambda>_. 0), rectTop = (\<lambda>_. 0), scrollY = 0,
      innerWidth = 1024, numberAdd = (\<lambda>a b. a + b), bodyChildren = [], nextNode = 100, listeners = [], timers = [],
      console = [], localStorage = Map.empty, sessionStorage = Map.empty,
      prefersColorSchemeDark = False, searchParams = [], referrer = [], userAgent = [],
      pathname = ''/'', hostname = ''omartaha.ca'', dateNow = 0, isoTimestamp = [],
      randomBase36 = ''0.abcdefghijk'', requests = []\<rparr>"

text \<open>
  A page with one project card.  The observer reports the card as intersecting while the
  animations are paused, and again after they are resumed.
\<close>

definition card_world :: world where
  "card_world = blank_world\<lparr>querySelectorAll := (\<lambda>sel. if sel = ''.project-card'' then [Node 1] else [])\<rparr>"

definition card_entry :: entry where
  "card_entry = \<lparr>target = Node 1, isIntersecting = True\<rparr>"

definition card_initial :: "AnimationManager \<times> world" where
  "card_initial = snd (AnimationManager_init (AnimationManager_new, card_world))"

definition card_paused_hit :: "AnimationManager \<times> world" where
  "card_paused_hit = animation_run [Pause, Intersections [card_entry]] card_initial"

definition card_resumed_hit :: "AnimationManager \<times> world" where
  "card_resumed_hit = animation_run [Resume, Intersections [card_entry]] card_paused_hit"

text \<open>
  Two pages with a navbar.  On \<open>nav_world\<close> the sections start at 0, 500 and 1000
  and the scroll position plus the navbar height plus 100 is 600.  On \<open>top_world\<close>
  the only section starts at 2000, the page is not scrolled, and the first link is
  \<open>href="#"\<close>.  \<open>nav_cached\<close> is a new NavigationManager after \<open>cacheElements\<close>.
\<close>

definition nav_world :: world where
  "nav_world = blank_world
     \<lparr>elementById := [''navbar'' \<mapsto> Node 10, ''mobile-menu'' \<mapsto> Node 14, ''nav-menu'' \<mapsto> Node 15],
      querySelectorAll := (\<lambda>sel. if sel = ''section[id]'' then [Node 1, Node 2, Node 3]
                                 else if sel = ''.nav-link'' then [Node 11, Node 12, Node 13] else []),
      attributes := (\<lambda>n. Map.empty)
         (Node 1 := [''id'' \<mapsto> ''home''], Node 2 := [''id'' \<mapsto> ''about''],
          Node 3 := [''id'' \<mapsto> ''contact''],
          Node 11 := [''href'' \<mapsto> ''#home''], Node 12 := [''href'' \<mapsto> ''#about''],
          Node 13 := [''href'' \<mapsto> ''#contact'']),
      offsetHeight := (\<lambda>n. 0)(Node 10 := 64),
      rectTop := (\<lambda>n. 0)(Node 1 := - 436, Node 2 := 64, Node 3 := 564),
      scrollY := 436\<rparr>"

definition top_world :: world where
  "top_world = blank_world
     \<lparr>elementById := [''navbar'' \<mapsto> Node 10, ''mobile-menu'' \<mapsto> Node 14, ''nav-menu'' \<mapsto> Node 15],
      querySelectorAll := (\<lambda>sel. if sel = ''section[id]'' then [Node 1]
                                 else if sel = ''.nav-link'' then [Node 11, Node 12] else []),
      attributes := (\<lambda>n. Map.empty)
         (Node 1 := [''id'' \<mapsto> ''about''],
          Node 11 := [''href'' \<mapsto> ''#''], Node 12 := [''href'' \<mapsto> ''#about'']),
      offsetHeight := (\<lambda>n. 0)(Node 10 := 64),
      rectTop := (\<lambda>n. 0)(Node 1 := 2000),
      scrollY := 0\<rparr>"

definition nav_cached :: "world \<Rightarrow> NavigationManager" where
  "nav_cached w = fst (snd (cacheElements (NavigationManager_new, w)))"

text \<open>
  Two query strings: \<open>?utm_source=linkedin&utm_campaign=launch\<close>, and
  \<open>?source=&utm_source=linkedin\<close>, where \<open>source\<close> is present with an empty value.
\<close>

definition linkedin_world :: world where
  "linkedin_world =
     blank_world\<lparr>searchParams := [(''utm_source'', ''linkedin''), (''utm_campaign'', ''launch'')]\<rparr>"

definition empty_source_world :: world where
  "empty_source_world =
     blank_world\<lparr>searchParams := [(''source'', ''''), (''utm_source'', ''linkedin'')]\<rparr>"

section \<open>ThemeManager: precedence of the stored theme, and toggling\<close>

lemma fst_updateMetaThemeColor: "fst (updateMetaThemeColor (tm, w)) = tm"
  by (simp add: updateMetaThemeColor_def split: option.splits)

lemma fst_applyTheme: "fst (applyTheme (tm, w)) = tm"
  by (simp add: applyTheme_def fst_updateMetaThemeColor)

text \<open>
  C3.  After \<open>ThemeManager.init()\<close> the current theme is the stored value of
  \<open>portfolio-theme\<close> when that value is \<open>light\<close> or \<open>dark\<close>, whatever the system
  prefers; with no stored value, or a stored value that is neither, it is \<open>dark\<close> if the
  system prefers dark and \<open>light\<close> otherwise.
\<close>

theorem ThemeManager_init_precedence:
  "currentTheme (fst (ThemeManager_init (tm, w))) =
     (if localStorage w ''portfolio-theme'' = Some ''light'' then ''light''
      else if localStorage w ''portfolio-theme'' = Some ''dark'' then ''dark''
      else if prefersColorSchemeDark w then ''dark'' else ''light'')"
  by (auto simp: ThemeManager_init_def detectSystemPreference_def loadSavedTheme_def
        addEventListener_def fst_applyTheme split: option.splits)

text \<open>
  C10.  For a ThemeManager whose current theme is \<open>light\<close> or \<open>dark\<close>, two calls of
  \<open>toggleTheme()\<close> give the state that applying and saving the starting theme gives: the
  same current theme, the same \<open>data-theme\<close> attribute, the same stored value.  After one
  call of \<open>toggleTheme()\<close>, from any state, \<open>hasUserPreference()\<close> is true.
\<close>

theorem toggleTheme_twice:
  "(currentTheme tm = ''light'' \<or> currentTheme tm = ''dark'' \<longrightarrow>
      toggleTheme (toggleTheme (tm, w)) = saveTheme (applyTheme (tm, w)) \<and>
      currentTheme (fst (toggleTheme (toggleTheme (tm, w)))) = currentTheme tm \<and>
      attributes (snd (toggleTheme (toggleTheme (tm, w)))) DocumentElement ''data-theme''
        = Some (currentTheme tm) \<and>
      localStorage (snd (toggleTheme (toggleTheme (tm, w)))) ''portfolio-theme''
        = Some (currentTheme tm)) \<and>
   hasUserPreference (snd (toggleTheme (tm, w)))"
  by (auto simp: toggleTheme_def saveTheme_def applyTheme_def updateMetaThemeColor_def
        querySelector_def setAttribute_def localStorage_setItem_def hasUserPreference_def
        split: option.splits list.splits)

theorem toggleTheme_twice_witness:
  "(currentTheme ThemeManager_new = ''light'' \<or> currentTheme ThemeManager_new = ''dark'') \<and>
   toggleTheme (toggleTheme (ThemeManager_new, blank_world))
     = saveTheme (applyTheme (ThemeManager_new, blank_world)) \<and>
   currentTheme (fst (toggleTheme (ThemeManager_new, blank_world))) = ''dark'' \<and>
   localStorage (snd (toggleTheme (toggleTheme (ThemeManager_new, blank_world)))) ''portfolio-theme''
     = Some ''light'' \<and>
   hasUserPreference (snd (toggleTheme (ThemeManager_new, blank_world)))"
proof -
  have start: "currentTheme ThemeManager_new = ''light''"
    by (simp add: ThemeManager_new_def)
  have once: "currentTheme (fst (toggleTheme (ThemeManager_new, blank_world))) = ''dark''"
    by (simp add: toggleTheme_def saveTheme_def applyTheme_def updateMetaThemeColor_def
          ThemeManager_new_def split: option.splits)
  from start once toggleTheme_twice [of ThemeManager_new blank_world]
  show ?thesis by metis
qed

section \<open>PortfolioApp: a second init, and failures of one component\<close>

lemma isInitialized_after_init: "isInitialized (fst (PortfolioApp_init (app, w)))"
  by (simp add: PortfolioApp_init_def andThen_def registerComponents_def initializeComponents_def
      App_bindEvents_def markInitialized_def Let_def split: prod.splits option.splits)

text \<open>
  C1.  \<open>PortfolioApp.init()\<close> is idempotent.  Whatever the instance and the page were
  before the first call, a second call, on whatever the page has become, only writes the
  warning to the console: the registry and every listener table are as they were, nothing
  is registered or bound again, and \<open>init\<close> (which has no exceptional result) returns.
\<close>

theorem PortfolioApp_init_idempotent:
  "PortfolioApp_init (fst (PortfolioApp_init (app, w)), w')
     = (fst (PortfolioApp_init (app, w)),
        console_put (Warn ''Application already initialized'') w') \<and>
   components (fst (PortfolioApp_init (fst (PortfolioApp_init (app, w)), w')))
     = components (fst (PortfolioApp_init (app, w))) \<and>
   listeners (snd (PortfolioApp_init (fst (PortfolioApp_init (app, w)), w'))) = listeners w'"
proof -
  have "PortfolioApp_init (fst (PortfolioApp_init (app, w)), w')
     = (fst (PortfolioApp_init (app, w)),
        console_put (Warn ''Application already initialized'') w')"
    using isInitialized_after_init [of app w]
    by (simp add: PortfolioApp_init_def [of "(fst (PortfolioApp_init (app, w)), w')"])
  then show ?thesis by (simp add: console_put_def)
qed

lemma forEachInit_append:
  "forEachInit init (cs1 @ cs2) w =
     (case forEachInit init cs1 w of (cs1', w1) \<Rightarrow>
        (case forEachInit init cs2 w1 of (cs2', w2) \<Rightarrow> (cs1' @ cs2', w2)))"
  by (induction cs1 arbitrary: w) (auto split: prod.splits option.splits)

lemma forEachInit_keys: "forEachInit init cs w = (cs', w') \<Longrightarrow> map fst cs' = map fst cs"
  by (induction cs arbitrary: w cs' w') (auto split: prod.splits option.splits)

lemma console_prims [simp]:
  "console (addEventListener tg ev h w) = console w"
  "console (setAttribute n k v w) = console w"
  "console (setStyle n k v w) = console w"
  "console (classList_add n t w) = console w"
  "console (classList_toggle n t b w) = console w"
  "console (localStorage_setItem k v w) = console w"
  "console (setTimeout task ms w) = console w"
  "console (animateElement n w) = console w"
  "console (snd (createElement w)) = console w"
  by (simp_all add: addEventListener_def setAttribute_def setStyle_def classList_add_def
        classList_toggle_def localStorage_setItem_def setTimeout_def animateElement_def
        createElement_def Let_def)

lemma console_foldl_listeners:
  "console (foldl (\<lambda>v l. addEventListener (f l) ev h v) w ls) = console w"
  by (induction ls arbitrary: w) simp_all

lemma console_updateLinks: "console (snd (updateLinks cur ls w)) = console w"
  by (induction ls arbitrary: w) (simp_all split: option.splits)

lemma andThen_keeps:
  assumes "\<And>s. proj (snd (f s)) = proj s" and "\<And>s. proj (snd (g s)) = proj s"
  shows "proj (snd (andThen f g s)) = proj s"
proof (cases "f s")
  case (Pair r s')
  with assms(1)[of s] have "proj s' = proj s" by simp
  with Pair assms(2)[of s'] show ?thesis
    by (cases r) (simp_all add: andThen_def)
qed

lemma console_cacheElements: "console (snd (snd (cacheElements s))) = console (snd s)"
  by (cases s) (simp add: cacheElements_def Let_def)

lemma console_Nav_bindEvents: "console (snd (snd (Nav_bindEvents s))) = console (snd s)"
  by (cases s) (simp add: Nav_bindEvents_def Let_def console_foldl_listeners split: option.splits)

lemma console_setActiveLink: "console (snd (snd (setActiveLink s))) = console (snd s)"
proof (cases s)
  case (Pair nm w)
  show ?thesis
  proof (cases "navbar nm")
    case None
    with Pair show ?thesis by (simp add: setActiveLink_def)
  next
    case (Some nb)
    with Pair console_updateLinks show ?thesis
      by (simp add: setActiveLink_def Let_def split: prod.splits) (metis snd_conv)
  qed
qed

lemma console_Nav_init: "console (snd (snd (NavigationManager_init s))) = console (snd s)"
  unfolding NavigationManager_init_def
  by (intro andThen_keeps[where proj="\<lambda>s. console (snd s)"] console_cacheElements console_Nav_bindEvents console_setActiveLink)


lemma bodyChildren_prims [simp]:
  "bodyChildren (addEventListener tg ev h w) = bodyChildren w"
  "bodyChildren (setAttribute n k v w) = bodyChildren w"
  "bodyChildren (setStyle n k v w) = bodyChildren w"
  "bodyChildren (classList_add n t w) = bodyChildren w"
  "bodyChildren (classList_toggle n t b w) = bodyChildren w"
  "bodyChildren (localStorage_setItem k v w) = bodyChildren w"
  "bodyChildren (setTimeout task ms w) = bodyChildren w"
  "bodyChildren (animateElement n w) = bodyChildren w"
  "bodyChildren (console_put e w) = bodyChildren w"
  "bodyChildren (snd (createElement w)) = bodyChildren w"
  by (simp_all add: addEventListener_def setAttribute_def setStyle_def classList_add_def
        classList_toggle_def localStorage_setItem_def setTimeout_def animateElement_def
        console_put_def createElement_def Let_def)

lemma cacheElements_missing:
  assumes "elementById w ''navbar'' = None \<or> elementById w ''mobile-menu'' = None
           \<or> elementById w ''nav-menu'' = None"
  shows "NavigationManager_init (nm, w) =
           (Some (Error ''Required navigation elements not found''),
            (nm\<lparr>navbar := elementById w ''navbar'', navToggle := elementById w ''mobile-menu'',
                navMenu := elementById w ''nav-menu'',
                navLinks := querySelectorAll w ''.nav-link''\<rparr>, w))"
  using assms by (auto simp: NavigationManager_init_def andThen_def cacheElements_def Let_def)

lemma ScrollManager_init_ok: "fst (ScrollManager_init (sm, w)) = None"
  by (simp add: ScrollManager_init_def andThen_def createScrollToTopButton_def Scroll_bindEvents_def
        Let_def split: prod.splits)

lemma ScrollManager_init_console: "console (snd (snd (ScrollManager_init (sm, w)))) = console w"
  by (simp add: ScrollManager_init_def andThen_def createScrollToTopButton_def Scroll_bindEvents_def
        Let_def createElement_def split: prod.splits)

lemma ScrollManager_init_body:
  "bodyChildren (snd (snd (ScrollManager_init (sm, w)))) = bodyChildren w @ [Node (nextNode w)]"
  by (simp add: ScrollManager_init_def andThen_def createScrollToTopButton_def Scroll_bindEvents_def
        Let_def createElement_def split: prod.splits)

lemma ScrollManager_init_button:
  "scrollToTopButton (fst (snd (ScrollManager_init (sm, w)))) = Some (Node (nextNode w))"
  by (simp add: ScrollManager_init_def andThen_def createScrollToTopButton_def Scroll_bindEvents_def
        Let_def createElement_def split: prod.splits)

lemma observeEach_props:
  "intersectionObserver am \<noteq> None \<Longrightarrow>
   fst (observeEach xs (am, w)) = None \<and>
   intersectionObserver (fst (snd (observeEach xs (am, w)))) \<noteq> None \<and>
   console (snd (snd (observeEach xs (am, w)))) = console w \<and>
   bodyChildren (snd (snd (observeEach xs (am, w)))) = bodyChildren w"
  by (induction xs arbitrary: am w) (auto simp: Let_def)

lemma observeSelectors_props:
  "intersectionObserver am \<noteq> None \<Longrightarrow>
   fst (observeSelectors sels (am, w)) = None \<and>
   intersectionObserver (fst (snd (observeSelectors sels (am, w)))) \<noteq> None \<and>
   console (snd (snd (observeSelectors sels (am, w)))) = console w \<and>
   bodyChildren (snd (snd (observeSelectors sels (am, w)))) = bodyChildren w"
proof (induction sels arbitrary: am w)
  case Nil
  then show ?case by simp
next
  case (Cons sel sels)
  obtain r am1 w1 where e: "observeEach (enumerate 0 (querySelectorAll w sel)) (am, w) = (r, (am1, w1))"
    by (metis prod.exhaust)
  from observeEach_props[OF Cons.prems, of "enumerate 0 (querySelectorAll w sel)" w] e
  have p: "r = None" "intersectionObserver am1 \<noteq> None" "console w1 = console w"
    "bodyChildren w1 = bodyChildren w" by simp_all
  from Cons.IH[OF p(2), of w1] e p show ?case by simp
qed

lemma addTypingEffect_props:
  "fst (addTypingEffect (am, w)) = None \<and> fst (snd (addTypingEffect (am, w))) = am \<and>
   console (snd (snd (addTypingEffect (am, w)))) = console w \<and>
   bodyChildren (snd (snd (addTypingEffect (am, w)))) = bodyChildren w"
  by (simp add: addTypingEffect_def Let_def split: option.splits)

lemma AnimationManager_init_props:
  "fst (AnimationManager_init (am, w)) = None \<and>
   intersectionObserver (fst (snd (AnimationManager_init (am, w)))) \<noteq> None \<and>
   console (snd (snd (AnimationManager_init (am, w)))) = console w \<and>
   bodyChildren (snd (snd (AnimationManager_init (am, w)))) = bodyChildren w"
proof -
  let ?am0 = "am\<lparr>intersectionObserver :=
               Some \<lparr>targets = [], threshold = 1 / 10, rootMargin = ''0px 0px -50px 0px''\<rparr>\<rparr>"
  obtain r am1 w1 where e: "observeSelectors selectors (?am0, w) = (r, (am1, w1))"
    by (metis prod.exhaust)
  have "intersectionObserver ?am0 \<noteq> None" by simp
  from observeSelectors_props[OF this, of selectors w] e
  have p: "r = None" "intersectionObserver am1 \<noteq> None" "console w1 = console w"
    "bodyChildren w1 = bodyChildren w" by simp_all
  from addTypingEffect_props[of am1 w1] e p show ?thesis
    by (simp add: AnimationManager_init_def andThen_def setupIntersectionObserver_def
          observeElements_def split: prod.splits option.splits)
qed

lemma ThemeManager_init_props:
  "console (snd (ThemeManager_init (tm, w))) = console w \<and>
   bodyChildren (snd (ThemeManager_init (tm, w))) = bodyChildren w \<and>
   attributes (snd (ThemeManager_init (tm, w))) DocumentElement ''data-theme''
     = Some (currentTheme (fst (ThemeManager_init (tm, w))))"
  by (auto simp: ThemeManager_init_def detectSystemPreference_def loadSavedTheme_def
        applyTheme_def updateMetaThemeColor_def setAttribute_def addEventListener_def
        split: option.splits)

lemma forEachInit_at:
  "forEachInit init (before @ (name, c) # remaining) w =
     (case forEachInit init before w of (before', w1) \<Rightarrow>
        (case init (c, w1) of (r, (c', w2)) \<Rightarrow>
           (case forEachInit init remaining
                   (console_put
                      (case r of
                         None \<Rightarrow> Log (name @ '' component initialized'')
                       | Some error \<Rightarrow>
                           ErrorLog (''Failed to initialize '' @ name @ '' component:'') error)
                      w2) of
              (remaining', w3) \<Rightarrow> (before' @ (name, c') # remaining', w3))))"
  by (induction before arbitrary: w) (auto split: prod.splits option.splits)

lemma init_without_navigation:
  assumes miss: "elementById w ''navbar'' = None \<or> elementById w ''mobile-menu'' = None
           \<or> elementById w ''nav-menu'' = None"
  shows "(\<exists>nm sm am tm.
         components (fst (PortfolioApp_init (PortfolioApp_new, w))) =
            [(''navigation'', Navigation nm), (''scroll'', Scroll sm),
             (''animation'', Animation am), (''theme'', Theme tm)] \<and>
         scrollToTopButton sm = Some (Node (nextNode w)) \<and>
         intersectionObserver am \<noteq> None \<and>
         attributes (snd (PortfolioApp_init (PortfolioApp_new, w))) DocumentElement ''data-theme''
           = Some (currentTheme tm)) \<and>
      console (snd (PortfolioApp_init (PortfolioApp_new, w))) =
        console w @
          [ErrorLog ''Failed to initialize navigation component:''
             (Error ''Required navigation elements not found''),
           Log ''scroll component initialized'',
           Log ''animation component initialized'',
           Log ''theme component initialized'',
           Log ''Portfolio application initialized successfully''] \<and>
      bodyChildren (snd (PortfolioApp_init (PortfolioApp_new, w))) = bodyChildren w @ [Node (nextNode w)]"
proof -
  define nm where "nm = NavigationManager_new\<lparr>navbar := elementById w ''navbar'',
      navToggle := elementById w ''mobile-menu'', navMenu := elementById w ''nav-menu'',
      navLinks := querySelectorAll w ''.nav-link''\<rparr>"
  define w1 where "w1 = console_put (ErrorLog ''Failed to initialize navigation component:''
             (Error ''Required navigation elements not found'')) w"
  have n: "NavigationManager_init (NavigationManager_new, w) =
      (Some (Error ''Required navigation elements not found''), (nm, w))"
    unfolding nm_def by (rule cacheElements_missing[OF miss])
  obtain rs sm w2 where s: "ScrollManager_init (ScrollManager_new, w1) = (rs, (sm, w2))"
    by (metis prod.exhaust)
  from ScrollManager_init_ok[of ScrollManager_new w1] ScrollManager_init_console[of ScrollManager_new w1]
     ScrollManager_init_body[of ScrollManager_new w1] ScrollManager_init_button[of ScrollManager_new w1] s
  have sp: "rs = None" "console w2 = console w1" "bodyChildren w2 = bodyChildren w1 @ [Node (nextNode w1)]"
    "scrollToTopButton sm = Some (Node (nextNode w1))" by simp_all
  define w3 where "w3 = console_put (Log ''scroll component initialized'') w2"
  obtain ra am w4 where a: "AnimationManager_init (AnimationManager_new, w3) = (ra, (am, w4))"
    by (metis prod.exhaust)
  from AnimationManager_init_props[of AnimationManager_new w3] a
  have ap: "ra = None" "intersectionObserver am \<noteq> None" "console w4 = console w3"
    "bodyChildren w4 = bodyChildren w3" by simp_all
  define w5 where "w5 = console_put (Log ''animation component initialized'') w4"
  obtain tm w6 where t: "ThemeManager_init (ThemeManager_new, w5) = (tm, w6)"
    by (metis prod.exhaust)
  from ThemeManager_init_props[of ThemeManager_new w5] t
  have tp: "console w6 = console w5" "bodyChildren w6 = bodyChildren w5"
    "attributes w6 DocumentElement ''data-theme'' = Some (currentTheme tm)" by simp_all
  define w7 where "w7 = console_put (Log ''theme component initialized'') w6"
  have loop: "forEachInit component_init
      [(''navigation'', Navigation NavigationManager_new), (''scroll'', Scroll ScrollManager_new),
       (''animation'', Animation AnimationManager_new), (''theme'', Theme ThemeManager_new)] w
      = ([(''navigation'', Navigation nm), (''scroll'', Scroll sm),
             (''animation'', Animation am), (''theme'', Theme tm)], w7)"
    using n s a t sp(1) ap(1) by (simp add: w1_def w3_def w5_def w7_def)
  have reg: "registerComponents (PortfolioApp_new, w) =
     (None, (PortfolioApp_new\<lparr>components := [(''navigation'', Navigation NavigationManager_new), (''scroll'', Scroll ScrollManager_new),
       (''animation'', Animation AnimationManager_new), (''theme'', Theme ThemeManager_new)]\<rparr>, w))"
    by (simp add: registerComponents_def PortfolioApp_new_def)
  have res: "PortfolioApp_init (PortfolioApp_new, w) =
     (\<lparr>components = [(''navigation'', Navigation nm), (''scroll'', Scroll sm),
             (''animation'', Animation am), (''theme'', Theme tm)], isInitialized = True\<rparr>,
      console_put (Log ''Portfolio application initialized successfully'')
        (addEventListener Window ''error'' App_handleError
          (addEventListener Window ''resize'' (App_handleResize_debounced 250)
            (addEventListener Document ''visibilitychange'' App_handleVisibilityChange w7))))"
    using loop reg
    by (simp add: PortfolioApp_init_def andThen_def initializeComponents_def App_bindEvents_def
          markInitialized_def PortfolioApp_new_def Let_def)
  have c: "console w7 = console w @ [ErrorLog ''Failed to initialize navigation component:''
             (Error ''Required navigation elements not found''),
           Log ''scroll component initialized'',
           Log ''animation component initialized'',
           Log ''theme component initialized'']"
    using sp ap tp by (simp add: w1_def w3_def w5_def w7_def console_put_def)
  have b: "bodyChildren w7 = bodyChildren w @ [Node (nextNode w)]"
    using sp ap tp by (simp add: w1_def w3_def w5_def w7_def console_put_def)
  have at: "attributes w7 DocumentElement ''data-theme'' = Some (currentTheme tm)"
    using tp by (simp add: w7_def console_put_def)
  have nn: "nextNode w1 = nextNode w" by (simp add: w1_def console_put_def)
  show ?thesis
    using res c b at sp(4) ap(2) nn
    by (simp add: console_put_def addEventListener_def)
qed

text \<open>
  C2.  In the loop of \<open>initializeComponents\<close>, for any components and any \<open>init\<close>: the
  entry at any position of the registry has its \<open>init\<close> run on the world its
  predecessors left, whether they raised or not; its own outcome, exception or not, is
  written to the console; and the loop goes on with the entries after it.  In particular,
  on a page without the navbar, the mobile-menu toggle or the nav-menu, \<open>init\<close> of a new
  application logs the failure of the navigation component and still initialises scroll,
  animation and theme: the button is created and appended, the observer exists, the theme
  is applied, and the application is marked initialised.
\<close>

theorem initializeComponents_isolates_failures:
  "forEachInit init (before @ (name, c) # remaining) w =
     (case forEachInit init before w of (before', w1) \<Rightarrow>
        (case init (c, w1) of (r, (c', w2)) \<Rightarrow>
           (case forEachInit init remaining
                   (console_put
                      (case r of
                         None \<Rightarrow> Log (name @ '' component initialized'')
                       | Some error \<Rightarrow>
                           ErrorLog (''Failed to initialize '' @ name @ '' component:'') error)
                      w2) of
              (remaining', w3) \<Rightarrow> (before' @ (name, c') # remaining', w3)))) \<and>
   (elementById v ''navbar'' = None \<or> elementById v ''mobile-menu'' = None
      \<or> elementById v ''nav-menu'' = None \<longrightarrow>
    (\<exists>nm sm am tm.
       components (fst (PortfolioApp_init (PortfolioApp_new, v))) =
         [(''navigation'', Navigation nm), (''scroll'', Scroll sm),
          (''animation'', Animation am), (''theme'', Theme tm)] \<and>
       scrollToTopButton sm = Some (Node (nextNode v)) \<and>
       intersectionObserver am \<noteq> None \<and>
       attributes (snd (PortfolioApp_init (PortfolioApp_new, v))) DocumentElement ''data-theme''
         = Some (currentTheme tm)) \<and>
    isInitialized (fst (PortfolioApp_init (PortfolioApp_new, v))) \<and>
    console (snd (PortfolioApp_init (PortfolioApp_new, v))) =
      console v @
        [ErrorLog ''Failed to initialize navigation component:''
           (Error ''Required navigation elements not found''),
         Log ''scroll component initialized'',
         Log ''animation component initialized'',
         Log ''theme component initialized'',
         Log ''Portfolio application initialized successfully''] \<and>
    bodyChildren (snd (PortfolioApp_init (PortfolioApp_new, v)))
      = bodyChildren v @ [Node (nextNode v)])"
  using forEachInit_at [of init before name c remaining w]
    init_without_navigation [of v] isInitialized_after_init [of PortfolioApp_new v]
  by blast

theorem initializeComponents_isolates_failures_witness:
  "elementById blank_world ''navbar'' = None \<and>
   isInitialized (fst (PortfolioApp_init (PortfolioApp_new, blank_world))) \<and>
   console (snd (PortfolioApp_init (PortfolioApp_new, blank_world))) =
     [ErrorLog ''Failed to initialize navigation component:''
        (Error ''Required navigation elements not found''),
      Log ''scroll component initialized'',
      Log ''animation component initialized'',
      Log ''theme component initialized'',
      Log ''Portfolio application initialized successfully''] \<and>
   bodyChildren (snd (PortfolioApp_init (PortfolioApp_new, blank_world))) = [Node 100]"
proof -
  have miss: "elementById blank_world ''navbar'' = None"
    and empty: "console blank_world = []" "bodyChildren blank_world = []"
      "nextNode blank_world = 100"
    by (simp_all add: blank_world_def)
  from miss empty
    initializeComponents_isolates_failures
      [of component_init "[]" "''navigation''" "Navigation NavigationManager_new" "[]"
          blank_world blank_world]
  show ?thesis by simp
qed

section \<open>AnimationManager: pausing, and animating once\<close>

lemma add_token_idem: "add_token t (add_token t ts) = add_token t ts"
  by (simp add: add_token_def)

lemma add_token_mem: "t \<in> set (add_token t ts)"
  by (simp add: add_token_def)

lemma forEachEntry_props:
  "intersectionObserver am = Some obs \<Longrightarrow>
   fst (forEachEntry es (am, w)) = None \<and>
   intersectionObserver (fst (snd (forEachEntry es (am, w)))) =
     Some (obs\<lparr>targets := filter (\<lambda>n. n \<notin> target ` {e \<in> set es. isIntersecting e}) (targets obs)\<rparr>) \<and>
   observedElements (fst (snd (forEachEntry es (am, w)))) = observedElements am \<and>
   isAnimationPaused (fst (snd (forEachEntry es (am, w)))) = isAnimationPaused am \<and>
   classList (snd (snd (forEachEntry es (am, w)))) n =
     (if n \<in> target ` {e \<in> set es. isIntersecting e} then add_token ''animated'' (classList w n)
      else classList w n)"
proof (induction es arbitrary: am w obs)
  case Nil
  then show ?case by simp
next
  case (Cons e es)
  show ?case
  proof (cases "isIntersecting e")
    case False
    then have "{x \<in> set (e # es). isIntersecting x} = {x \<in> set es. isIntersecting x}" by auto
    with False Cons.IH[OF Cons.prems, of w] show ?thesis by simp
  next
    case True
    let ?am = "am\<lparr>intersectionObserver := Some (unobserve (target e) obs)\<rparr>"
    let ?w = "animateElement (target e) w"
    have o: "intersectionObserver ?am = Some (unobserve (target e) obs)" by simp
    have s: "target ` {x \<in> set (e # es). isIntersecting x} = insert (target e) (target ` {x \<in> set es. isIntersecting x})"
      using True by auto
    have f: "filter (\<lambda>n. n \<notin> target ` {x \<in> set es. isIntersecting x}) (removeAll (target e) (targets obs))
       = filter (\<lambda>n. n \<notin> insert (target e) (target ` {x \<in> set es. isIntersecting x})) (targets obs)"
      by (induction "targets obs") (auto simp: removeAll_filter_not_eq intro: filter_cong)
    from Cons.IH[OF o, of ?w] True Cons.prems s f show ?thesis
      by (auto simp: unobserve_def animateElement_def classList_add_def add_token_idem)
  qed
qed

lemma observeEach_inv:
  "observer_inv am \<Longrightarrow>
   observer_inv (fst (snd (observeEach xs (am, w)))) \<and>
   isAnimationPaused (fst (snd (observeEach xs (am, w)))) = isAnimationPaused am"
proof (induction xs arbitrary: am w)
  case Nil
  then show ?case by simp
next
  case (Cons x xs)
  obtain index element where x: "x = (index, element)" by (cases x)
  from Cons.prems obtain obs where o: "intersectionObserver am = Some obs"
    and sub: "set (targets obs) \<subseteq> set (observedElements am)"
    by (auto simp: observer_inv_def list_all_iff split: option.splits)
  let ?am = "am\<lparr>intersectionObserver := Some (observe element obs),
                  observedElements := Set_add element (observedElements am)\<rparr>"
  have "observer_inv ?am"
    using sub by (auto simp: observer_inv_def list_all_iff observe_def Set_add_def)
  from Cons.IH[OF this] x o show ?case by (simp add: Let_def)
qed

lemma observeSelectors_inv:
  "observer_inv am \<Longrightarrow>
   observer_inv (fst (snd (observeSelectors sels (am, w)))) \<and>
   isAnimationPaused (fst (snd (observeSelectors sels (am, w)))) = isAnimationPaused am"
proof (induction sels arbitrary: am w)
  case Nil
  then show ?case by simp
next
  case (Cons sel sels)
  obtain r am1 w1 where e: "observeEach (enumerate 0 (querySelectorAll w sel)) (am, w) = (r, (am1, w1))"
    by (metis prod.exhaust)
  from observeEach_inv[OF Cons.prems, of "enumerate 0 (querySelectorAll w sel)" w] e
  have p: "observer_inv am1" "isAnimationPaused am1 = isAnimationPaused am" by simp_all
  show ?case
  proof (cases r)
    case None
    with Cons.IH[OF p(1), of w1] e p show ?thesis by simp
  next
    case (Some ex)
    with e p show ?thesis by simp
  qed
qed

lemma notify_paused: "isAnimationPaused am \<Longrightarrow> notify es (am, w) = (None, (am, w))"
  by (simp add: notify_def observerCallback_def split: option.splits)

lemma notify_unpaused:
  assumes "\<not> isAnimationPaused am" "intersectionObserver am = Some obs"
  shows "snd (notify es (am, w)) = snd (forEachEntry (filter (\<lambda>e. target e \<in> set (targets obs)) es) (am, w))"
  using assms by (simp add: notify_def observerCallback_def)

lemma observer_inv_step:
  assumes "observer_inv (fst s)"
  shows "observer_inv (fst (animation_step ev s))"
proof (cases s)
  case (Pair am w)
  with assms obtain obs where o: "intersectionObserver am = Some obs"
    and sub: "set (targets obs) \<subseteq> set (observedElements am)"
    by (auto simp: observer_inv_def list_all_iff split: option.splits)
  show ?thesis
  proof (cases ev)
    case (Intersections es)
    show ?thesis
    proof (cases "isAnimationPaused am")
      case True
      with Pair Intersections assms show ?thesis by (simp add: notify_paused)
    next
      case False
      from forEachEntry_props[OF o, of "filter (\<lambda>e. target e \<in> set (targets obs)) es" w]
        notify_unpaused[OF False o, of es w] sub Pair Intersections
      show ?thesis by (auto simp: observer_inv_def list_all_iff)
    qed
  next
    case Pause
    with Pair assms show ?thesis by (simp add: observer_inv_def pause_def split: option.splits)
  next
    case Resume
    with Pair assms show ?thesis by (simp add: observer_inv_def resume_def split: option.splits)
  next
    case Resize
    with Pair assms observeSelectors_inv[of am selectors w] show ?thesis
      by (simp add: Animation_handleResize_def observeElements_def)
  qed
qed

lemma observer_inv_run: "observer_inv (fst s) \<Longrightarrow> observer_inv (fst (animation_run evs s))"
  unfolding animation_run_def
  by (induction evs arbitrary: s) (simp_all add: observer_inv_step)

lemma observer_inv_init: "observer_inv (fst (snd (AnimationManager_init (am, w))))"
proof -
  let ?am0 = "am\<lparr>intersectionObserver :=
               Some \<lparr>targets = [], threshold = 1 / 10, rootMargin = ''0px 0px -50px 0px''\<rparr>\<rparr>"
  obtain r am1 w1 where e: "observeSelectors selectors (?am0, w) = (r, (am1, w1))"
    by (metis prod.exhaust)
  have "observer_inv ?am0" by (simp add: observer_inv_def)
  from observeSelectors_inv[OF this, of selectors w] e have "observer_inv am1" by simp
  with e show ?thesis
    by (cases r) (simp_all add: AnimationManager_init_def andThen_def setupIntersectionObserver_def
          observeElements_def addTypingEffect_def Let_def split: option.splits)
qed

lemma retired_step:
  assumes "retired n (fst s)"
  shows "retired n (fst (animation_step ev s)) \<and>
         classList (snd (animation_step ev s)) n = classList (snd s) n"
proof (cases s)
  case (Pair am w)
  with assms obtain obs where o: "intersectionObserver am = Some obs"
    and out: "n \<notin> set (targets obs)" and ne: "observedElements am \<noteq> []"
    by (auto simp: retired_def split: option.splits)
  show ?thesis
  proof (cases ev)
    case (Intersections es)
    show ?thesis
    proof (cases "isAnimationPaused am")
      case True
      with Pair Intersections assms show ?thesis by (simp add: notify_paused)
    next
      case False
      from forEachEntry_props[OF o, of "filter (\<lambda>e. target e \<in> set (targets obs)) es" w n]
        notify_unpaused[OF False o, of es w] out ne Pair Intersections
      show ?thesis by (auto simp: retired_def)
    qed
  next
    case Pause
    with Pair assms show ?thesis by (simp add: retired_def pause_def split: option.splits)
  next
    case Resume
    with Pair assms show ?thesis by (simp add: retired_def resume_def split: option.splits)
  next
    case Resize
    with Pair assms ne show ?thesis
      by (simp add: Animation_handleResize_def)
  qed
qed

lemma retired_run:
  "retired n (fst s) \<Longrightarrow>
   retired n (fst (animation_run evs s)) \<and>
   classList (snd (animation_run evs s)) n = classList (snd s) n"
  unfolding animation_run_def
proof (induction evs arbitrary: s)
  case Nil
  then show ?case by simp
next
  case (Cons ev evs)
  from retired_step[OF Cons.prems, of ev] Cons.IH[of "animation_step ev s"]
  show ?case by simp
qed

lemma string_of_nat_0: "string_of_nat 0 = ''0''"
  by (simp add: string_of_nat.simps)

lemma card_initial_am: "fst card_initial =
   \<lparr>observedElements = [Node 1],
    intersectionObserver = Some \<lparr>targets = [Node 1], threshold = 1 / 10, rootMargin = ''0px 0px -50px 0px''\<rparr>,
    isAnimationPaused = False\<rparr>"
  by (simp add: card_initial_def AnimationManager_init_def andThen_def setupIntersectionObserver_def
      observeElements_def selectors_def card_world_def blank_world_def AnimationManager_new_def
      addTypingEffect_def querySelector_def observe_def Set_add_def Let_def
      classList_add_def setStyle_def)

lemma card_initial_classes: "classList (snd card_initial) (Node 1) = [''animate-on-scroll'']"
  by (simp add: card_initial_def AnimationManager_init_def andThen_def setupIntersectionObserver_def
      observeElements_def selectors_def card_world_def blank_world_def AnimationManager_new_def
      addTypingEffect_def querySelector_def observe_def Set_add_def Let_def
      classList_add_def setStyle_def add_token_def)

lemma observeEach_paused:
  "isAnimationPaused (fst (snd (observeEach xs (am, w)))) = isAnimationPaused am"
  by (induction xs arbitrary: am w) (auto simp: Let_def split: option.splits)

lemma observeSelectors_paused:
  "isAnimationPaused (fst (snd (observeSelectors sels (am, w)))) = isAnimationPaused am"
proof (induction sels arbitrary: am w)
  case Nil
  then show ?case by simp
next
  case (Cons sel sels)
  obtain r am1 w1 where e: "observeEach (enumerate 0 (querySelectorAll w sel)) (am, w) = (r, (am1, w1))"
    by (metis prod.exhaust)
  with observeEach_paused[of "enumerate 0 (querySelectorAll w sel)" am w]
  have p: "isAnimationPaused am1 = isAnimationPaused am" by simp
  from Cons.IH[of am1 w1] e p show ?case by (cases r) simp_all
qed

lemma step_stays_paused:
  assumes "isAnimationPaused (fst s)" "ev \<noteq> Resume"
  shows "isAnimationPaused (fst (animation_step ev s))"
proof (cases s)
  case (Pair am w)
  with assms show ?thesis
    by (cases ev)
       (simp_all add: notify_paused pause_def Animation_handleResize_def observeElements_def
          observeSelectors_paused)
qed

lemma run_stays_paused:
  "isAnimationPaused (fst s) \<Longrightarrow> Resume \<notin> set evs \<Longrightarrow>
   isAnimationPaused (fst (animation_run evs s))"
  unfolding animation_run_def
proof (induction evs arbitrary: s)
  case Nil
  then show ?case by simp
next
  case (Cons ev evs)
  from Cons.prems have "isAnimationPaused (fst (animation_step ev s))"
    by (intro step_stays_paused) auto
  from Cons.IH[OF this] Cons.prems show ?case by simp
qed

lemma callback_paused:
  "isAnimationPaused (fst s) \<Longrightarrow> observerCallback es s = (None, s)"
  by (cases s) (simp add: observerCallback_def)

lemma notify_animates:
  assumes "\<not> isAnimationPaused am" "intersectionObserver am = Some obs"
    "e \<in> set es" "isIntersecting e" "target e \<in> set (targets obs)"
  shows "''animated'' \<in> set (classList (snd (snd (notify es (am, w)))) (target e)) \<and>
         \<not> observes (fst (snd (notify es (am, w)))) (target e) \<and>
         observedElements (fst (snd (notify es (am, w)))) = observedElements am"
proof -
  let ?es = "filter (\<lambda>e. target e \<in> set (targets obs)) es"
  have m: "target e \<in> target ` {x \<in> set ?es. isIntersecting x}"
    using assms(3-5) by auto
  from forEachEntry_props[OF assms(2), of ?es w "target e"] notify_unpaused[OF assms(1,2), of es w] m
  show ?thesis by (simp add: add_token_mem observes_def)
qed

text \<open>
  C5.  After \<open>pause()\<close>, and through any events that do not include \<open>resume()\<close>, the
  observer's callback leaves the manager and the page exactly as they were, whatever the
  entries: no class is added.  After \<open>resume()\<close>, a notification with an intersecting
  entry for an element the observer still watches gives that element the class
  \<open>animated\<close>.  \<open>pause()\<close> and \<open>resume()\<close> change the flag and nothing else; the observer
  is the same object with the same targets.
\<close>

theorem pause_gates_intersections:
  "(Resume \<notin> set events \<longrightarrow>
      observerCallback entries (animation_run events (pause am, w))
        = (None, animation_run events (pause am, w))) \<and>
   (observes am (target e) \<and> e \<in> set entries \<and> isIntersecting e \<longrightarrow>
      ''animated'' \<in> set (classList (snd (snd (notify entries (resume am, w)))) (target e))) \<and>
   pause am = am\<lparr>isAnimationPaused := True\<rparr> \<and>
   resume am = am\<lparr>isAnimationPaused := False\<rparr> \<and>
   intersectionObserver (pause am) = intersectionObserver am \<and>
   intersectionObserver (resume am) = intersectionObserver am"
proof -
  have a: "Resume \<notin> set events \<Longrightarrow>
      observerCallback entries (animation_run events (pause am, w))
        = (None, animation_run events (pause am, w))"
    by (rule callback_paused, rule run_stays_paused) (simp_all add: pause_def)
  have b: "''animated'' \<in> set (classList (snd (snd (notify entries (resume am, w)))) (target e))"
    if h: "observes am (target e)" "e \<in> set entries" "isIntersecting e"
  proof -
    from h(1) obtain obs where o: "intersectionObserver (resume am) = Some obs"
      and t: "target e \<in> set (targets obs)"
      by (auto simp: observes_def resume_def split: option.splits)
    have "\<not> isAnimationPaused (resume am)" by (simp add: resume_def)
    from notify_animates[OF this o h(2,3) t] show ?thesis by simp
  qed
  from a b show ?thesis by (simp add: pause_def resume_def)
qed

theorem pause_gates_intersections_witness:
  "Resume \<notin> set [Intersections [card_entry], Resize] \<and>
   observes (fst card_initial) (target card_entry) \<and>
   card_entry \<in> set [card_entry] \<and> isIntersecting card_entry \<and>
   observerCallback [card_entry]
       (animation_run [Intersections [card_entry], Resize]
          (pause (fst card_initial), snd card_initial))
     = (None, animation_run [Intersections [card_entry], Resize]
                (pause (fst card_initial), snd card_initial)) \<and>
   ''animated'' \<in> set (classList (snd (snd (notify [card_entry]
                          (resume (fst card_initial), snd card_initial)))) (target card_entry))"
proof -
  have h: "Resume \<notin> set [Intersections [card_entry], Resize]"
    "observes (fst card_initial) (target card_entry)"
    "card_entry \<in> set [card_entry]" "isIntersecting card_entry"
    by (simp_all add: card_initial_am observes_def card_entry_def)
  from h pause_gates_intersections
      [of "[Intersections [card_entry], Resize]" "[card_entry]" "fst card_initial"
          "snd card_initial" card_entry]
  show ?thesis by blast
qed

text \<open>
  C4, as stated, fails while the animations are paused: on a page with one project card,
  the card's first qualifying intersection arrives during a pause, the card stays observed
  and is not animated, and its second qualifying intersection, after \<open>resume()\<close>, adds
  the class.
\<close>

theorem one_shot_animation_paused_counterexample: "observes (fst card_initial) (Node 1) \<and>
   observes (fst card_paused_hit) (Node 1) \<and>
   ''animated'' \<notin> set (classList (snd card_paused_hit) (Node 1)) \<and>
   ''animated'' \<in> set (classList (snd card_resumed_hit) (Node 1))"
proof -
  define w where "w = snd card_initial"
  have ci: "card_initial = (fst card_initial, w)" by (simp add: w_def)
  have cl: "classList w (Node 1) = [''animate-on-scroll'']"
    using card_initial_classes by (simp add: w_def)
  have p: "card_paused_hit = (pause (fst card_initial), w)"
    unfolding card_paused_hit_def animation_run_def
    by (subst ci) (simp add: notify_paused pause_def)
  show ?thesis
    unfolding card_resumed_hit_def p using cl
    by (simp add: card_initial_am observes_def pause_def animation_run_def resume_def
        notify_def observerCallback_def card_entry_def animateElement_def classList_add_def
        add_token_def unobserve_def)
qed

text \<open>
  C4, amended.  In any state the AnimationManager reaches after \<open>init()\<close>, when a
  notification carries an intersecting entry for an element the observer watches and the
  animations are not paused, the element gets the class \<open>animated\<close> and is no longer
  observed; whatever happens afterwards (notifications, pause, resume, resize), it is
  never observed again and its class list never changes again.
\<close>

theorem one_shot_animation:
  "observes (fst (animation_run before (snd (AnimationManager_init (am0, w0))))) (target e) \<and>
   \<not> isAnimationPaused (fst (animation_run before (snd (AnimationManager_init (am0, w0))))) \<and>
   e \<in> set entries \<and> isIntersecting e \<longrightarrow>
   ''animated'' \<in> set (classList (snd (animation_run (before @ [Intersections entries])
                          (snd (AnimationManager_init (am0, w0))))) (target e)) \<and>
   \<not> observes (fst (animation_run (before @ [Intersections entries] @ later)
                          (snd (AnimationManager_init (am0, w0))))) (target e) \<and>
   classList (snd (animation_run (before @ [Intersections entries] @ later)
                          (snd (AnimationManager_init (am0, w0))))) (target e)
     = classList (snd (animation_run (before @ [Intersections entries])
                          (snd (AnimationManager_init (am0, w0))))) (target e)"
proof (intro impI, elim conjE)
  define s where "s = animation_run before (snd (AnimationManager_init (am0, w0)))"
  define s1 where "s1 = animation_step (Intersections entries) s"
  assume h: "observes (fst (animation_run before (snd (AnimationManager_init (am0, w0))))) (target e)"
    "\<not> isAnimationPaused (fst (animation_run before (snd (AnimationManager_init (am0, w0)))))"
    "e \<in> set entries" "isIntersecting e"
  have r1: "animation_run (before @ [Intersections entries]) (snd (AnimationManager_init (am0, w0))) = s1"
    by (simp add: animation_run_def s_def s1_def)
  have r2: "animation_run (before @ [Intersections entries] @ later) (snd (AnimationManager_init (am0, w0)))
      = animation_run later s1"
    by (simp add: animation_run_def s_def s1_def)
  have inv: "observer_inv (fst s)"
    unfolding s_def by (rule observer_inv_run) (rule observer_inv_init)
  obtain am w where sp: "s = (am, w)" by (cases s)
  from h(1) obtain obs where o: "intersectionObserver am = Some obs"
    and t: "target e \<in> set (targets obs)"
    by (auto simp: observes_def s_def[symmetric] sp split: option.splits)
  from inv o t have ne: "observedElements am \<noteq> []"
    by (auto simp: observer_inv_def sp list_all_iff)
  from h(2) have np: "\<not> isAnimationPaused am" by (simp add: s_def[symmetric] sp)
  from notify_animates[OF np o h(3,4) t, of w]
  have n: "''animated'' \<in> set (classList (snd s1) (target e))"
    "\<not> observes (fst s1) (target e)" "observedElements (fst s1) = observedElements am"
    by (simp_all add: s1_def sp)
  from inv have "observer_inv (fst s1)" unfolding s1_def by (rule observer_inv_step)
  with n(2,3) ne have "retired (target e) (fst s1)"
    by (auto simp: retired_def observer_inv_def observes_def split: option.splits)
  from retired_run[OF this, of later]
  have l: "\<not> observes (fst (animation_run later s1)) (target e)"
    "classList (snd (animation_run later s1)) (target e) = classList (snd s1) (target e)"
    by (auto simp: retired_def observes_def split: option.splits)
  from n(1) l show "''animated'' \<in> set (classList (snd (animation_run (before @ [Intersections entries])
                          (snd (AnimationManager_init (am0, w0))))) (target e)) \<and>
   \<not> observes (fst (animation_run (before @ [Intersections entries] @ later)
                          (snd (AnimationManager_init (am0, w0))))) (target e) \<and>
   classList (snd (animation_run (before @ [Intersections entries] @ later)
                          (snd (AnimationManager_init (am0, w0))))) (target e)
     = classList (snd (animation_run (before @ [Intersections entries])
                          (snd (AnimationManager_init (am0, w0))))) (target e)"
    unfolding r1 r2 by simp
qed

theorem one_shot_animation_witness:
  "observes (fst (animation_run [] (snd (AnimationManager_init (AnimationManager_new, card_world)))))
     (target card_entry) \<and>
   \<not> isAnimationPaused
       (fst (animation_run [] (snd (AnimationManager_init (AnimationManager_new, card_world))))) \<and>
   card_entry \<in> set [card_entry] \<and> isIntersecting card_entry \<and>
   ''animated'' \<in> set (classList (snd (animation_run ([] @ [Intersections [card_entry]])
                          (snd (AnimationManager_init (AnimationManager_new, card_world)))))
                        (target card_entry)) \<and>
   \<not> observes (fst (animation_run ([] @ [Intersections [card_entry]]
                                      @ [Intersections [card_entry], Resize])
                          (snd (AnimationManager_init (AnimationManager_new, card_world)))))
        (target card_entry)"
proof -
  have h: "observes (fst (animation_run [] (snd (AnimationManager_init (AnimationManager_new, card_world)))))
     (target card_entry)"
    "\<not> isAnimationPaused
       (fst (animation_run [] (snd (AnimationManager_init (AnimationManager_new, card_world)))))"
    "card_entry \<in> set [card_entry]" "isIntersecting card_entry"
    using card_initial_am
    by (simp_all add: card_initial_def animation_run_def observes_def card_entry_def)
  from h one_shot_animation
      [of "[]" AnimationManager_new card_world card_entry "[card_entry]"
          "[Intersections [card_entry], Resize]"]
  show ?thesis by blast
qed

section \<open>NavigationManager: the active link\<close>

lemma findCurrentSection_last:
  "findCurrentSection w pos cur sections =
     (case rev (filter (\<lambda>s. numberAdd w (rectTop w s) (scrollY w) \<le> pos) sections) of
        [] \<Rightarrow> cur
      | s # _ \<Rightarrow> attributes w s ''id'')"
  by (induction sections arbitrary: cur) (auto simp: Let_def split: list.splits)

lemma active_toggle:
  "''active'' \<in> set (classList (classList_toggle l ''active'' b w) l) \<longleftrightarrow> b"
  by (simp add: classList_toggle_def add_token_def remove_token_def)

lemma updateLinks_props:
  "list_all (\<lambda>l. attributes w l ''href'' \<noteq> None) links \<Longrightarrow>
   fst (updateLinks cur links w) = None \<and>
   attributes (snd (updateLinks cur links w)) = attributes w \<and>
   (l \<in> set links \<longrightarrow>
      (''active'' \<in> set (classList (snd (updateLinks cur links w)) l)
         \<longleftrightarrow> Some (drop 1 (the (attributes w l ''href''))) = cur)) \<and>
   (l \<notin> set links \<longrightarrow> classList (snd (updateLinks cur links w)) l = classList w l)"
proof (induction links arbitrary: w)
  case Nil
  then show ?case by simp
next
  case (Cons x links)
  from Cons.prems obtain href where h: "attributes w x ''href'' = Some href" by auto
  let ?w = "classList_toggle x ''active'' (Some (drop 1 href) = cur) w"
  have at: "attributes ?w = attributes w" by (simp add: classList_toggle_def)
  from Cons.prems at have "list_all (\<lambda>l. attributes ?w l ''href'' \<noteq> None) links"
    by simp
  note ih = Cons.IH[OF this]
  have u: "updateLinks cur (x # links) w = updateLinks cur links ?w"
    using h by (simp add: Let_def)
  show ?case
  proof (cases "l \<in> set links")
    case True
    with ih u at show ?thesis by auto
  next
    case False
    show ?thesis
    proof (cases "l = x")
      case True
      with False ih u at h active_toggle[of x "Some (drop 1 href) = cur" w] show ?thesis by auto
    next
      case ne: False
      have "classList ?w l = classList w l" using ne by (simp add: classList_toggle_def)
      with False ne ih u at show ?thesis by auto
    qed
  qed
qed

lemma nav_cached_nav_world:
  "nav_cached nav_world = \<lparr>navbar = Some (Node 10), navToggle = Some (Node 14), navMenu = Some (Node 15),
      navLinks = [Node 11, Node 12, Node 13], isMenuOpen = False, nav_scrollThreshold = 50\<rparr>"
  by (simp add: nav_cached_def cacheElements_def nav_world_def blank_world_def NavigationManager_new_def Let_def)

lemma nav_cached_top_world:
  "nav_cached top_world = \<lparr>navbar = Some (Node 10), navToggle = Some (Node 14), navMenu = Some (Node 15),
      navLinks = [Node 11, Node 12], isMenuOpen = False, nav_scrollThreshold = 50\<rparr>"
  by (simp add: nav_cached_def cacheElements_def top_world_def blank_world_def NavigationManager_new_def Let_def)

text \<open>
  C6.  The last clause of the claim, that no link is active when no section is at or above
  the position, is what \<open>setActiveLink()\<close> does not do.  \<open>currentSection\<close> starts as the
  empty string, a link is active when its \<open>href\<close> without its first character equals
  \<open>currentSection\<close>, and the \<open>href\<close> \<open>#\<close> without its first character is the empty
  string too.  On \<open>top_world\<close> the only section starts at 2000 while the position is
  0 + 64 + 100 = 164: no section is at or above it, \<open>setActiveLink()\<close> returns normally,
  and the link \<open>#\<close> is marked active; the link \<open>#about\<close> is not.
\<close>

theorem setActiveLink_marks_hash_link:
  "map (\<lambda>s. numberAdd top_world (rectTop top_world s) (scrollY top_world))
       (querySelectorAll top_world ''section[id]'') = [2000] \<and>
   scrollPositionOf top_world (Node 10) = 164 \<and>
   lastSectionAtOrAbove top_world (scrollPositionOf top_world (Node 10)) = None \<and>
   attributes top_world (Node 11) ''href'' = Some ''#'' \<and>
   fst (setActiveLink (nav_cached top_world, top_world)) = None \<and>
   isActive (snd (snd (setActiveLink (nav_cached top_world, top_world)))) (Node 11) \<and>
   \<not> isActive (snd (snd (setActiveLink (nav_cached top_world, top_world)))) (Node 12)"
  unfolding nav_cached_top_world
  by (simp add: lastSectionAtOrAbove_def scrollPositionOf_def isActive_def setActiveLink_def
        top_world_def blank_world_def classList_toggle_def add_token_def remove_token_def Let_def)

text \<open>
  The rest of what \<open>setActiveLink()\<close> does, on every page.  The position and the tops
  are the sums the code forms, in JavaScript numbers.  When the navbar is cached and every
  nav link has an \<open>href\<close>, the call returns normally; with the last section at or above
  the position, a nav link is active afterwards exactly when its \<open>href\<close> without its
  first character is the id of that section, so the class is cleared from every other
  link; when there is no such section, no link whose \<open>href\<close> is longer than one
  character is active; and the classes of nodes that are not nav links are untouched.
\<close>

lemma setActiveLink_selects:
  "navbar nm = Some nb \<and> list_all (\<lambda>l. attributes w l ''href'' \<noteq> None) (navLinks nm) \<longrightarrow>
     fst (setActiveLink (nm, w)) = None \<and>
     (link \<in> set (navLinks nm) \<and>
      lastSectionAtOrAbove w (scrollPositionOf w nb) = Some section \<longrightarrow>
        (isActive (snd (snd (setActiveLink (nm, w)))) link \<longleftrightarrow>
           Some (drop 1 (the (attributes w link ''href''))) = attributes w section ''id'')) \<and>
     (link \<in> set (navLinks nm) \<and>
      lastSectionAtOrAbove w (scrollPositionOf w nb) = None \<and>
      1 < length (the (attributes w link ''href'')) \<longrightarrow>
        \<not> isActive (snd (snd (setActiveLink (nm, w)))) link) \<and>
     (link \<notin> set (navLinks nm) \<longrightarrow>
        classList (snd (snd (setActiveLink (nm, w)))) link = classList w link)"
proof (intro impI, elim conjE)
  assume nb: "navbar nm = Some nb"
    and hrefs: "list_all (\<lambda>l. attributes w l ''href'' \<noteq> None) (navLinks nm)"
  define pos where "pos = scrollPositionOf w nb"
  define cur where "cur = findCurrentSection w pos (Some []) (querySelectorAll w ''section[id]'')"
  have s: "setActiveLink (nm, w) =
      (fst (updateLinks cur (navLinks nm) w), (nm, snd (updateLinks cur (navLinks nm) w)))"
    using nb
    by (simp add: setActiveLink_def Let_def pos_def cur_def scrollPositionOf_def split: prod.splits)
  note u = updateLinks_props[OF hrefs, of cur link]
  have some: "cur = attributes w sec ''id''"
    if "lastSectionAtOrAbove w pos = Some sec" for sec
    using that unfolding cur_def findCurrentSection_last lastSectionAtOrAbove_def
    by (simp split: list.splits)
  have none: "cur = Some []" if "lastSectionAtOrAbove w pos = None"
    using that unfolding cur_def findCurrentSection_last lastSectionAtOrAbove_def
    by (simp split: list.splits)
  have long: "drop 1 h \<noteq> []" if "1 < length h" for h :: string
    using that by simp
  show "fst (setActiveLink (nm, w)) = None \<and>
     (link \<in> set (navLinks nm) \<and>
      lastSectionAtOrAbove w (scrollPositionOf w nb) = Some section \<longrightarrow>
        (isActive (snd (snd (setActiveLink (nm, w)))) link \<longleftrightarrow>
           Some (drop 1 (the (attributes w link ''href''))) = attributes w section ''id'')) \<and>
     (link \<in> set (navLinks nm) \<and>
      lastSectionAtOrAbove w (scrollPositionOf w nb) = None \<and>
      1 < length (the (attributes w link ''href'')) \<longrightarrow>
        \<not> isActive (snd (snd (setActiveLink (nm, w)))) link) \<and>
     (link \<notin> set (navLinks nm) \<longrightarrow>
        classList (snd (snd (setActiveLink (nm, w)))) link = classList w link)"
    unfolding s isActive_def pos_def[symmetric]
    using u some none long[of "the (attributes w link ''href'')"] by auto
qed

text \<open>
  The example of the specification: on \<open>nav_world\<close> the tops are 0, 500 and 1000 and the
  position is 600; the link to the section at 500 is active and the other two are not.
\<close>

lemma setActiveLink_selects_example:
  "navbar (nav_cached nav_world) = Some (Node 10) \<and>
   list_all (\<lambda>l. attributes nav_world l ''href'' \<noteq> None) (navLinks (nav_cached nav_world)) \<and>
   scrollPositionOf nav_world (Node 10) = 600 \<and>
   map (\<lambda>s. numberAdd nav_world (rectTop nav_world s) (scrollY nav_world))
       (querySelectorAll nav_world ''section[id]'') = [0, 500, 1000] \<and>
   lastSectionAtOrAbove nav_world (scrollPositionOf nav_world (Node 10)) = Some (Node 2) \<and>
   \<not> isActive (snd (snd (setActiveLink (nav_cached nav_world, nav_world)))) (Node 11) \<and>
   isActive (snd (snd (setActiveLink (nav_cached nav_world, nav_world)))) (Node 12) \<and>
   \<not> isActive (snd (snd (setActiveLink (nav_cached nav_world, nav_world)))) (Node 13)"
proof -
  have h: "navbar (nav_cached nav_world) = Some (Node 10)"
    "list_all (\<lambda>l. attributes nav_world l ''href'' \<noteq> None) (navLinks (nav_cached nav_world))"
    "scrollPositionOf nav_world (Node 10) = 600"
    "map (\<lambda>s. numberAdd nav_world (rectTop nav_world s) (scrollY nav_world))
       (querySelectorAll nav_world ''section[id]'') = [0, 500, 1000]"
    "lastSectionAtOrAbove nav_world (scrollPositionOf nav_world (Node 10)) = Some (Node 2)"
    "navLinks (nav_cached nav_world) = [Node 11, Node 12, Node 13]"
    unfolding nav_cached_nav_world
    by (simp_all add: nav_world_def blank_world_def lastSectionAtOrAbove_def scrollPositionOf_def)
  have a: "attributes nav_world (Node 11) ''href'' = Some ''#home''"
    "attributes nav_world (Node 12) ''href'' = Some ''#about''"
    "attributes nav_world (Node 13) ''href'' = Some ''#contact''"
    "attributes nav_world (Node 2) ''id'' = Some ''about''"
    by (simp_all add: nav_world_def blank_world_def)
  from h a
    setActiveLink_selects [of "nav_cached nav_world" "Node 10" nav_world "Node 11" "Node 2"]
    setActiveLink_selects [of "nav_cached nav_world" "Node 10" nav_world "Node 12" "Node 2"]
    setActiveLink_selects [of "nav_cached nav_world" "Node 10" nav_world "Node 13" "Node 2"]
  show ?thesis by simp
qed

section \<open>The throttle wrapper: invocations per window\<close>

lemma timerDelay_small: "limit < 2 ^ 31 \<Longrightarrow> timerDelay limit = limit"
  by (simp add: timerDelay_def)

lemma throttle_Return:
  assumes "func args (inner t) = Return s'" "\<not> inThrottle t"
  shows "throttle (Suc stack) func limit args t =
     (None, t\<lparr>inThrottle := True,
               resetTimers := resetTimers t @ [clock t + timerDelay limit],
               invocations := invocations t @ [clock t],
               inner := s'\<rparr>)"
  using assms by simp

lemma throttle_Throw:
  assumes "func args (inner t) = Throw e s'" "\<not> inThrottle t"
  shows "throttle (Suc stack) func limit args t =
     (Some e, t\<lparr>invocations := invocations t @ [clock t], inner := s'\<rparr>)"
  using assms by simp

lemma throttle_throttled: "inThrottle t \<Longrightarrow> throttle (Suc stack) func limit args t = (None, t)"
  by simp

lemma throttle_inv_new: "throttle_inv limit (throttle_new now s)"
  by (simp add: throttle_inv_def throttle_new_def)

lemma throttle_inv_step:
  assumes plain: "\<And>args s. \<exists>s'. func args s = Return s'"
    and small: "limit < 2 ^ 31" and inv: "throttle_inv limit t"
  shows "throttle_inv limit (loop_step (Suc stack) func limit ev t)"
proof (cases ev)
  case (Call args)
  from plain obtain s' where f: "func args (inner t) = Return s'" by blast
  show ?thesis
  proof (cases "inThrottle t")
    case True
    with Call inv show ?thesis by simp
  next
    case False
    from Call inv False throttle_Return[of func args t s' stack limit, OF f False]
      timerDelay_small[OF small]
    show ?thesis
      by (auto simp: throttle_inv_def sorted_wrt_append list_all_iff)
  qed
next
  case (Advance d)
  with inv show ?thesis
    by (auto simp: throttle_inv_def list_all_iff split: list.splits if_splits)
next
  case Fire
  with inv show ?thesis
    by (auto simp: throttle_inv_def fire_def list_all_iff split: list.splits if_splits)
qed

lemma throttle_inv_run:
  assumes plain: "\<And>args s. \<exists>s'. func args s = Return s'" and small: "limit < 2 ^ 31"
  shows "throttle_inv limit t \<Longrightarrow> throttle_inv limit (loop_run (Suc stack) func limit events t)"
  unfolding loop_run_def
  by (induction events arbitrary: t) (simp_all add: throttle_inv_step[OF plain small])

lemma spaced_window:
  "sorted_wrt (\<lambda>x y. x + len \<le> y) ts \<Longrightarrow> in_window a len ts \<le> 1"
proof (induction ts)
  case Nil
  then show ?case by (simp add: in_window_def)
next
  case (Cons t ts)
  show ?case
  proof (cases "a \<le> t \<and> t < a + len")
    case True
    with Cons.prems have "filter (\<lambda>t. a \<le> t \<and> t < a + len) ts = []"
      by (auto simp: filter_empty_conv)
    with True show ?thesis by (simp add: in_window_def)
  next
    case False
    from Cons.prems have "sorted_wrt (\<lambda>x y. x + len \<le> y) ts" by simp
    from Cons.IH[OF this] False show ?thesis by (auto simp: in_window_def)
  qed
qed

lemma calls_while_throttled:
  "inThrottle t \<Longrightarrow> loop_run (Suc stack) func limit (map Call xs) t = t"
  unfolding loop_run_def
  by (induction xs) simp_all

lemma first_call:
  assumes "func x s = Return s'"
  shows "loop_run (Suc stack) func limit (map Call (x # xs)) (throttle_new now s) =
     \<lparr>inThrottle = True, clock = now, resetTimers = [now + timerDelay limit], invocations = [now],
      inner = s'\<rparr>"
proof -
  let ?t = "\<lparr>inThrottle = True, clock = now, resetTimers = [now + timerDelay limit],
      invocations = [now], inner = s'\<rparr>"
  have "loop_step (Suc stack) func limit (Call x) (throttle_new now s) = ?t"
    using assms by (simp add: throttle_new_def)
  moreover have "loop_run (Suc stack) func limit (map Call xs) ?t = ?t"
    by (rule calls_while_throttled) simp
  ultimately show ?thesis by (simp add: loop_run_def)
qed

text \<open>
  C7.  The rate limit the claim states for every function is what the wrapper does not
  give when the function throws.  \<open>inThrottle\<close> is set after \<open>func.apply\<close>, so an
  exception leaves it unset and starts no timer, and the next call invokes the function
  again.  A handler that throws on every call, behind a wrapper with a 16ms limit, is
  invoked by each of 100 synchronous calls: 100 invocations at the same instant, all in
  one 16ms window, where the claim says one.
\<close>

theorem throttle_throwing_invoked_every_call:
  "length (invocations (loop_run 1000 throwing 16 (replicate 100 (Call ())) (throttle_new 0 0)))
     = 100 \<and>
   in_window 0 16 (invocations (loop_run 1000 throwing 16 (replicate 100 (Call ()))
                                  (throttle_new 0 0))) = 100 \<and>
   inner (loop_run 1000 throwing 16 (replicate 100 (Call ())) (throttle_new 0 0)) = 100 \<and>
   \<not> inThrottle (loop_run 1000 throwing 16 (replicate 100 (Call ())) (throttle_new 0 0)) \<and>
   resetTimers (loop_run 1000 throwing 16 (replicate 100 (Call ())) (throttle_new 0 0)) = []"
proof -
  have d: "(1000::nat) = Suc 999" by simp
  have run: "loop_run (Suc stack) throwing limit (replicate n (Call ())) t =
      t\<lparr>invocations := invocations t @ replicate n (clock t), inner := inner t + n\<rparr>"
    if "\<not> inThrottle t" for stack limit n and t :: "nat throttle_state"
    using that unfolding loop_run_def
  proof (induction n arbitrary: t)
    case 0
    then show ?case by simp
  next
    case (Suc n)
    let ?t = "t\<lparr>invocations := invocations t @ [clock t], inner := Suc (inner t)\<rparr>"
    have s: "loop_step (Suc stack) throwing limit (Call ()) t = ?t"
      using Suc.prems by (simp add: throwing_def)
    have "\<not> inThrottle ?t" using Suc.prems by simp
    from Suc.IH[OF this] s show ?case by (simp add: replicate_app_Cons_same)
  qed
  have "\<not> inThrottle (throttle_new 0 (0::nat))" by (simp add: throttle_new_def)
  from run[OF this, of 999 16 100] show ?thesis
    unfolding d by (simp add: throttle_new_def in_window_def)
qed

text \<open>
  The same order of statements lets a function that returns normally run twice at one
  instant: while the handler that calls its own wrapper on its first run is inside that
  first run, the flag is still unset, and the inner call runs it again.  One call of the
  wrapper gives two invocations and starts two timers.
\<close>

lemma throttle_reentrant_runs_twice:
  "throttle 1000 reentrant 16 () (throttle_new 0 0) =
     (None, \<lparr>inThrottle = True, clock = 0, resetTimers = [16, 16], invocations = [0, 0],
             inner = 2\<rparr>)"
proof -
  have d: "Suc (Suc 998) = 1000" by simp
  have "throttle (Suc (Suc k)) reentrant 16 () (throttle_new 0 0) =
     (None, \<lparr>inThrottle = True, clock = 0, resetTimers = [16, 16], invocations = [0, 0],
             inner = 2\<rparr>)" for k
    by (simp add: reentrant_def throttle_new_def timerDelay_def)
  from this[of 998] show ?thesis unfolding d .
qed

text \<open>
  For a function that only returns, that is, one that neither throws nor calls its
  wrapper, and a limit below \<open>2\<^sup>3\<^sup>1\<close> milliseconds, the rate limit holds: whatever the
  sequence of calls, passing time and timers firing, any window of the length of the limit
  holds at most one invocation; and 100 synchronous calls through a wrapper with a 16ms
  limit invoke the function exactly once, with the arguments of the first call.
\<close>

lemma throttle_rate_limit:
  "(\<forall>args s. \<exists>s'. func args s = Return s') \<and> limit < 2 ^ 31 \<longrightarrow>
     in_window a limit
       (invocations (loop_run (Suc stack) func limit events (throttle_new now s0))) \<le> 1 \<and>
     (length xs = 100 \<longrightarrow>
        length (invocations (loop_run (Suc stack) func 16 (map Call xs) (throttle_new now s0))) = 1 \<and>
        Return (inner (loop_run (Suc stack) func 16 (map Call xs) (throttle_new now s0)))
          = func (hd xs) s0)"
proof (intro impI conjI; elim conjE)
  assume q: "\<forall>args s. \<exists>s'. func args s = Return s'" and small: "limit < 2 ^ 31"
  then have plain: "\<And>args s. \<exists>s'. func args s = Return s'" by simp
  have "throttle_inv limit (loop_run (Suc stack) func limit events (throttle_new now s0))"
    by (rule throttle_inv_run[OF plain small throttle_inv_new])
  then show "in_window a limit
      (invocations (loop_run (Suc stack) func limit events (throttle_new now s0))) \<le> 1"
    by (intro spaced_window) (simp add: throttle_inv_def)
next
  assume q: "\<forall>args s. \<exists>s'. func args s = Return s'" and l: "length xs = 100"
  from l obtain y ys where xs: "xs = y # ys" by (cases xs) auto
  from q obtain s' where f: "func y s0 = Return s'" by blast
  from first_call[of func y s0 s' stack 16 ys now, OF f] f
  show "length (invocations (loop_run (Suc stack) func 16 (map Call xs) (throttle_new now s0))) = 1"
    and "Return (inner (loop_run (Suc stack) func 16 (map Call xs) (throttle_new now s0)))
          = func (hd xs) s0"
    by (simp_all add: xs)
qed

lemma throttle_rate_limit_example:
  "(\<forall>args s. \<exists>s'. counting args s = Return s') \<and> (16::nat) < 2 ^ 31 \<and>
   invocations (loop_run 1000 counting 16 [Call (), Call (), Advance 16, Fire, Call (), Call ()]
                  (throttle_new 0 0)) = [0, 16] \<and>
   in_window 0 16 (invocations (loop_run 1000 counting 16
                  [Call (), Call (), Advance 16, Fire, Call (), Call ()] (throttle_new 0 0))) \<le> 1 \<and>
   length (replicate 100 ()) = 100 \<and>
   length (invocations (loop_run 1000 counting 16 (map Call (replicate 100 ())) (throttle_new 0 0))) = 1 \<and>
   inner (loop_run 1000 counting 16 (map Call (replicate 100 ())) (throttle_new 0 0)) = 1"
proof -
  have d: "(1000::nat) = Suc 999" by simp
  have q: "\<forall>args s. \<exists>s'. counting args s = Return s'" by (simp add: counting_def)
  have "invocations (loop_run (Suc k) counting 16 [Call (), Call (), Advance 16, Fire, Call (), Call ()]
                  (throttle_new 0 0)) = [0, 16]" for k
    by (simp add: loop_run_def throttle_new_def counting_def fire_def timerDelay_def)
  from this[of 999]
  have i: "invocations (loop_run (Suc 999) counting 16 [Call (), Call (), Advance 16, Fire, Call (), Call ()]
                  (throttle_new 0 0)) = [0, 16]" .
  have h: "counting (hd (replicate 100 ())) 0 = Return 1" by (simp add: counting_def)
  from q i h
    throttle_rate_limit [of counting 16 0 999 "[Call (), Call (), Advance 16, Fire, Call (), Call ()]" 0 0
          "replicate 100 ()"]
  show ?thesis unfolding d by simp
qed

section \<open>tracking.js: the payload, the request and the stored source\<close>

lemma orElse_truthy: "truthy a \<Longrightarrow> orElse a d = the a"
  by (cases a) (simp_all add: orElse_def)

lemma orElse_falsy: "\<not> truthy a \<Longrightarrow> orElse a d = d"
  by (cases a) (simp_all add: orElse_def)

lemma buildData_world:
  "hostname (snd (buildData w)) = hostname w \<and> requests (snd (buildData w)) = requests w \<and>
   console (snd (buildData w)) = console w \<and> sessionStorage (snd (buildData w)) = sessionStorage w"
  by (simp add: buildData_def getVisitorId_def localStorage_setItem_def Let_def split: option.splits)

lemma payload_hostname: "payload (w\<lparr>hostname := h\<rparr>) = payload w"
  by (simp add: payload_def buildData_def getVisitorId_def resolveSource_def resolveCampaign_def
        resolveMedium_def getUrlParameter_def Let_def split: option.splits)

lemma trackVisitor_unfold:
  "trackVisitor w =
     (None,
      (if resolveSource w \<noteq> ''direct''
       then sessionStorage_setItem ''visit_source'' (resolveSource w) else (\<lambda>v. v))
        (console_put (LogData ''Visitor tracked:'' (payload w))
           ((if \<not> isLocalHost w then fetch trackingEndpoint (payload w) else (\<lambda>v. v))
              (snd (buildData w)))))"
  using buildData_world[of w]
  by (cases "buildData w") (simp add: trackVisitor_def payload_def isLocalHost_def Let_def)

text \<open>
  C8, as stated, fails for a parameter that is present with an empty value: \<open>||\<close>
  passes over the empty string as it does over \<open>null\<close>.  For
  \<open>?source=&utm_source=linkedin\<close> the value of \<open>source\<close> is the empty string, and
  the resolved source is \<open>linkedin\<close>.
\<close>

theorem tracking_empty_source_counterexample:
  "getUrlParameter ''source'' empty_source_world = Some [] \<and>
   spec_resolveSource empty_source_world = [] \<and>
   resolveSource empty_source_world = ''linkedin''"
  by (simp add: empty_source_world_def blank_world_def getUrlParameter_def spec_resolveSource_def
        resolveSource_def orElse_def)

text \<open>
  C8, amended.  The resolved source is the value of \<open>source\<close> if it is present and
  not empty, else that of \<open>utm_source\<close> if present and not empty, else that of
  \<open>ref\<close> if present and not empty, else \<open>direct\<close>; campaign and medium likewise,
  with the empty string last.  The payload has exactly the fields source, campaign,
  medium, referrer, user_agent, page, timestamp, visitor_id, in this order, and carries
  the resolved values; for \<open>?utm_source=linkedin&utm_campaign=launch\<close> its source is
  \<open>linkedin\<close> and its campaign is \<open>launch\<close>.
\<close>

theorem tracking_source_and_payload:
  "resolveSource w =
     (if hasValue ''source'' w then the (getUrlParameter ''source'' w)
      else if hasValue ''utm_source'' w then the (getUrlParameter ''utm_source'' w)
      else if hasValue ''ref'' w then the (getUrlParameter ''ref'' w)
      else ''direct'') \<and>
   resolveCampaign w =
     (if hasValue ''campaign'' w then the (getUrlParameter ''campaign'' w)
      else if hasValue ''utm_campaign'' w then the (getUrlParameter ''utm_campaign'' w)
      else []) \<and>
   resolveMedium w =
     (if hasValue ''medium'' w then the (getUrlParameter ''medium'' w)
      else if hasValue ''utm_medium'' w then the (getUrlParameter ''utm_medium'' w)
      else []) \<and>
   map fst (payload w) =
     [''source'', ''campaign'', ''medium'', ''referrer'', ''user_agent'', ''page'',
      ''timestamp'', ''visitor_id''] \<and>
   map_of (payload w) ''source'' = Some (resolveSource w) \<and>
   map_of (payload w) ''campaign'' = Some (resolveCampaign w) \<and>
   map_of (payload w) ''medium'' = Some (resolveMedium w) \<and>
   map_of (payload linkedin_world) ''source'' = Some ''linkedin'' \<and>
   map_of (payload linkedin_world) ''campaign'' = Some ''launch''"
proof -
  have ex: "resolveSource linkedin_world = ''linkedin''" "resolveCampaign linkedin_world = ''launch''"
    by (simp_all add: linkedin_world_def blank_world_def getUrlParameter_def
        resolveSource_def resolveCampaign_def orElse_def)
  have p: "map fst (payload w) =
     [''source'', ''campaign'', ''medium'', ''referrer'', ''user_agent'', ''page'',
      ''timestamp'', ''visitor_id'']"
    "map_of (payload w) ''source'' = Some (resolveSource w)"
    "map_of (payload w) ''campaign'' = Some (resolveCampaign w)"
    "map_of (payload w) ''medium'' = Some (resolveMedium w)" for w
    by (simp_all add: payload_def buildData_def split: prod.splits)
  show ?thesis
    using ex p[of linkedin_world]
    by (simp add: p resolveSource_def resolveCampaign_def resolveMedium_def hasValue_def
          orElse_truthy orElse_falsy)
qed

text \<open>
  C9.  \<open>trackVisitor\<close> returns normally.  It starts the POST exactly when the host
  name is neither \<open>localhost\<close> nor \<open>127.0.0.1\<close>; it logs the payload in both cases,
  and the payload does not depend on the host name; it stores the resolved source under
  \<open>visit_source\<close> in the session storage exactly when the source is not \<open>direct\<close>;
  and when the request fails, the \<open>catch\<close> callback writes a debug line and returns
  normally, so the page load as a whole raises nothing.
\<close>

theorem tracking_send_and_storage:
  "fst (trackVisitor w) = None \<and>
   requests (snd (trackVisitor w)) =
     (if isLocalHost w then requests w else requests w @ [postOf w]) \<and>
   console (snd (trackVisitor w)) = console w @ [LogData ''Visitor tracked:'' (payload w)] \<and>
   payload (w\<lparr>hostname := h\<rparr>) = payload w \<and>
   sessionStorage (snd (trackVisitor w)) =
     (if resolveSource w = ''direct'' then sessionStorage w
      else (sessionStorage w)(''visit_source'' \<mapsto> resolveSource w)) \<and>
   fst (fetch_catch v) = None \<and>
   fst (pageLoad networkFails w) = None \<and>
   console (snd (pageLoad networkFails w)) =
     (if networkFails \<and> \<not> isLocalHost w
      then console w @ [LogData ''Visitor tracked:'' (payload w), Debug ''Tracking skipped'']
      else console w @ [LogData ''Visitor tracked:'' (payload w)])"
proof -
  have t: "fst (trackVisitor w) = None"
    "requests (snd (trackVisitor w)) =
       (if isLocalHost w then requests w else requests w @ [postOf w])"
    "console (snd (trackVisitor w)) = console w @ [LogData ''Visitor tracked:'' (payload w)]"
    "sessionStorage (snd (trackVisitor w)) =
     (if resolveSource w = ''direct'' then sessionStorage w
      else (sessionStorage w)(''visit_source'' \<mapsto> resolveSource w))"
    using buildData_world[of w]
    by (simp_all add: trackVisitor_unfold sessionStorage_setItem_def console_put_def fetch_def
          postOf_def trackingEndpoint_def)
  have p: "fst (pageLoad networkFails w) = None"
   "console (snd (pageLoad networkFails w)) =
     (if networkFails \<and> \<not> isLocalHost w
      then console w @ [LogData ''Visitor tracked:'' (payload w), Debug ''Tracking skipped'']
      else console w @ [LogData ''Visitor tracked:'' (payload w)])"
    using t by (auto simp: pageLoad_def fetch_catch_def console_put_def split: prod.splits option.splits)
  from t p show ?thesis by (simp add: payload_hostname fetch_catch_def)
qed

end
